theory Spec2Isabelle
  imports Main "HOL-Library.Word"
begin

unbundle bit_operations_syntax

section \<open>Data sources of the asset-discovery platform: Umbrella and NetworksDB\<close>

text \<open>
  A shallow embedding of \<^verbatim>\<open>datasrcs/umbrella.go\<close> and \<^verbatim>\<open>datasrcs/networksdb.go\<close>.
  Everything a data source does to the outside is an event appended to a chronological
  trace: a rate-limit admission (\<^verbatim>\<open>CheckRateLimit\<close>), an outbound call
  (\<^verbatim>\<open>http.RequestWebPage\<close>), a cache update (\<^verbatim>\<open>Cache().Update\<close>) and a value sent on the
  output channel. The helpers \<^verbatim>\<open>numRateLimitChecks\<close> and \<^verbatim>\<open>genNewNameEvent\<close> of the
  package are declared in files that are not part of the sources read here: a call of one
  of them is an event of its own, \<open>Checks\<close> with the count it is called with and
  \<open>NewName\<close> with the name, and nothing is said about what they do. The provider, the decoders of the standard library and the scope
  predicate are functions of an environment record; the provider's answer may depend on
  how many calls were made before, so it can answer the same question differently.
  Log lines are not modelled.
\<close>

subsection \<open>Strings\<close>

text \<open>\<^verbatim>\<open>strings.TrimSpace\<close> on the ASCII white space characters.\<close>

definition isSpace :: "char \<Rightarrow> bool" where
  "isSpace c = (c = CHR '' '' \<or> c = CHR 0x09 \<or> c = CHR 0x0A \<or> c = CHR 0x0B
                \<or> c = CHR 0x0C \<or> c = CHR 0x0D)"

definition TrimSpace :: "string \<Rightarrow> string" where
  "TrimSpace s = rev (dropWhile isSpace (rev (dropWhile isSpace s)))"

subsection \<open>Requests, events and the environment\<close>

text \<open>\<^verbatim>\<open>requests.ASNRequest\<close>; \<^verbatim>\<open>AllocationDate\<close> is a \<^verbatim>\<open>time.Time\<close>, kept as a number.\<close>

record ASNRequest =
  Address :: string
  ASN :: int
  Prefix :: string
  CC :: string
  Registry :: string
  AllocationDate :: int
  Description :: string
  Netblocks :: "string list"
  Tag :: string
  Source :: string

text \<open>\<^verbatim>\<open>requests.WhoisRequest\<close>, with the fields the two sources fill in
  (\<open>WDomain\<close>, \<open>WTag\<close> and \<open>WSource\<close> for \<^verbatim>\<open>Domain\<close>, \<^verbatim>\<open>Tag\<close> and \<^verbatim>\<open>Source\<close>).\<close>

record WhoisRequest =
  WDomain :: string
  NewDomains :: "string list"
  WTag :: string
  WSource :: string

text \<open>
  The outbound calls of the two sources, one constructor for each URL builder;
  \<open>ReverseWhois\<close> carries the URL of the reverse lookup and the offset,
  \<open>Scrape\<close> the whole URL of a page of networksdb.io, the \<open>Api\<close> constructors
  the parameter posted to the API of networksdb.io.
\<close>

datatype query =
    RestDNS string
  | RestAddr string
  | RestAddrToASN string
  | RestASNToCIDRs int
  | WhoisRecord string
  | ReverseWhois string nat
  | Scrape string
  | ApiIP string
  | ApiOrgInfo string
  | ApiASNInfo int
  | ApiNetblocks int

datatype event =
    Admit
  | Checks nat
  | Call query
  | Update ASNRequest
  | Emit WhoisRequest
  | NewName string

type_synonym world = "event list"

definition CheckRateLimit :: "world \<Rightarrow> world" where
  "CheckRateLimit w = w @ [Admit]"

fun calls :: "world \<Rightarrow> query list" where
  "calls [] = []"
| "calls (Call q # w) = q # calls w"
| "calls (_ # w) = calls w"

definition ncalls :: "world \<Rightarrow> nat" where
  "ncalls w = length (calls w)"

fun updates :: "world \<Rightarrow> ASNRequest list" where
  "updates [] = []"
| "updates (Update r # w) = r # updates w"
| "updates (_ # w) = updates w"

fun emitted :: "world \<Rightarrow> WhoisRequest list" where
  "emitted [] = []"
| "emitted (Emit r # w) = r # emitted w"
| "emitted (_ # w) = emitted w"

definition admissions :: "world \<Rightarrow> nat" where
  "admissions w = length (filter (\<lambda>ev. ev = Admit) w)"

text \<open>The anonymous structs the Umbrella responses are decoded into.\<close>

record as_entry =
  as_Date :: string
  as_Registry :: int
  as_Description :: string
  as_ASN :: int
  as_CIDR :: string

record netblock_entry =
  nb_CIDR :: string
  nb_CountryName :: string
  nb_CountryCode :: string

record whoisRecord =
  NameServers :: "string list"
  AdminContactEmail :: string
  BillingContactEmail :: string
  RegistrantEmail :: string
  TechContactEmail :: string
  ZoneContactEmail :: string

record rWhoisDomain =
  rw_Domain :: string
  rw_Current :: bool

record rWhoisResponse =
  TotalResults :: int
  MoreData :: bool
  Limit :: int
  Domains :: "rWhoisDomain list"

text \<open>
  Addresses and networks of package \<^verbatim>\<open>net\<close>: an address is four or sixteen bytes, a
  network is a network number and a mask of the same width.
\<close>

datatype ip = IPv4 "32 word" | IPv6 "128 word"

datatype ipnet = IPNet4 "32 word" "32 word" | IPNet6 "128 word" "128 word"

text \<open>The results of the NetworksDB API, as \<^verbatim>\<open>json.Unmarshal\<close> fills them.\<close>

record api_ip =
  ip_Error :: string
  ip_Total :: int
  ip_Results :: "(string \<times> string) list"

record api_org =
  org_Error :: string
  org_Total :: int
  org_Results :: "int list list"

record api_asn_result =
  r_ASN :: int
  r_ASName :: string
  r_Description :: string
  r_CountryCode :: string
  r_Country :: string

record api_asn =
  asn_Error :: string
  asn_Total :: int
  asn_Results :: "api_asn_result list"

record api_networks =
  net_Error :: string
  net_Total :: int
  net_Results :: "string list"

text \<open>
  The environment: the provider (\<open>RequestWebPage\<close>, \<open>None\<close> for a transport
  error; its first argument is the number of calls made before), the scope predicate of
  the configuration, and the library functions that read text: \<^verbatim>\<open>json.Unmarshal\<close> for
  each target type (\<open>None\<close> for an error; for the map of the reverse lookup
  \<open>Some None\<close> is the JSON value null and \<open>Some (Some ms)\<close> an object with the
  members \<open>ms\<close>), \<^verbatim>\<open>time.Parse\<close>, \<^verbatim>\<open>net.ParseCIDR\<close>,
  \<^verbatim>\<open>net.ParseIP\<close>, \<^verbatim>\<open>strconv.Atoi\<close>, \<^verbatim>\<open>resolve.RemoveLastDot\<close>, the regular expressions of networksdb.go,
  \<^verbatim>\<open>amassnet.FirstLast\<close>, the key \<^verbatim>\<open>stringset\<close> stores an element under and the
  order in which a set is listed.
\<close>

record env =
  RequestWebPage :: "nat \<Rightarrow> query \<Rightarrow> (string \<times> string) list \<Rightarrow> string option"
  IsDomainInScope :: "string \<Rightarrow> bool"
  ParseDate :: "string \<Rightarrow> int option"
  ParseCIDR :: "string \<Rightarrow> (ip \<times> ipnet) option"
  ParseIP :: "string \<Rightarrow> ip option"
  IPString :: "ip \<Rightarrow> string"
  Atoi :: "string \<Rightarrow> int option"
  FirstLast :: "ipnet \<Rightarrow> ip \<times> ip"
  setKey :: "string \<Rightarrow> string"
  listing :: "nat \<Rightarrow> string list \<Rightarrow> string list"
  json_as :: "string \<Rightarrow> as_entry list option"
  json_netblock :: "string \<Rightarrow> netblock_entry list option"
  json_dns :: "string \<Rightarrow> string list option"
  json_pdns :: "string \<Rightarrow> string list option"
  RemoveLastDot :: "string \<Rightarrow> string"
  json_whois :: "string \<Rightarrow> whoisRecord option"
  json_rwhois :: "string \<Rightarrow> (string \<times> rWhoisResponse) list option option"
  json_ip :: "string \<Rightarrow> api_ip option"
  json_org :: "string \<Rightarrow> api_org option"
  json_asn :: "string \<Rightarrow> api_asn option"
  json_networks :: "string \<Rightarrow> api_networks option"
  ASNLinkRE :: "string \<Rightarrow> string list option"
  IPLinkRE :: "string \<Rightarrow> string list list option"
  ASNRE :: "string \<Rightarrow> string list option"
  CIDRRE :: "string \<Rightarrow> string list list"
  IPPageCIDRRE :: "string \<Rightarrow> string list option"
  ASNameRE :: "string \<Rightarrow> string list option"
  CCRE :: "string \<Rightarrow> string list option"
  AnySubdomainRegex :: "string \<Rightarrow> string list"

subsection \<open>Umbrella\<close>

record Credentials =
  Key :: string

record Umbrella =
  SourceType :: string
  creds :: "Credentials option"

definition noKey :: "Credentials option \<Rightarrow> bool" where
  "noKey c = (case c of None \<Rightarrow> True | Some k \<Rightarrow> Key k = '''')"

definition umbrellaName :: string where
  "umbrellaName = ''Umbrella''"

definition restHeaders :: "Umbrella \<Rightarrow> (string \<times> string) list" where
  "restHeaders u =
     (''Content-Type'', ''application/json'') #
     (case creds u of
        None \<Rightarrow> []
      | Some k \<Rightarrow> if Key k \<noteq> '''' then [(''Authorization'', ''Bearer '' @ Key k)] else [])"

definition registryName :: "int \<Rightarrow> string" where
  "registryName ir =
     (if ir = 1 then ''AfriNIC''
      else if ir = 2 then ''APNIC''
      else if ir = 3 then ''ARIN''
      else if ir = 4 then ''LACNIC''
      else if ir = 5 then ''RIPE NCC''
      else ''N/A'')"

text \<open>The first loop of \<^verbatim>\<open>executeASNQuery\<close>: every netblock is appended.\<close>

fun appendNetblocks :: "netblock_entry list \<Rightarrow> ASNRequest \<Rightarrow> ASNRequest" where
  "appendNetblocks [] req = req"
| "appendNetblocks (nb # nbs) req =
     (let req1 = req\<lparr>Netblocks := Netblocks req @ [TrimSpace (nb_CIDR nb)]\<rparr>;
          req2 = (if nb_CIDR nb = Prefix req1 then req1\<lparr>CC := nb_CountryCode nb\<rparr> else req1)
      in appendNetblocks nbs req2)"

text \<open>The last loop of \<^verbatim>\<open>executeASNQuery\<close>: the country of the first netblock that is the prefix.\<close>

fun finishCC :: "netblock_entry list \<Rightarrow> ASNRequest \<Rightarrow> ASNRequest" where
  "finishCC [] req = req"
| "finishCC (nb # nbs) req =
     (if nb_CIDR nb = Prefix req then req\<lparr>CC := nb_CountryCode nb\<rparr> else finishCC nbs req)"

lemma Netblocks_appendNetblocks:
  "Netblocks (appendNetblocks nbs req) = Netblocks req @ map (\<lambda>nb. TrimSpace (nb_CIDR nb)) nbs"
  by (induction nbs arbitrary: req) (simp_all add: Let_def)

text \<open>The fields \<^verbatim>\<open>executeASNAddrQuery\<close> copies from the first entry of the response.\<close>

definition fillAS :: "Umbrella \<Rightarrow> as_entry \<Rightarrow> int \<Rightarrow> ASNRequest \<Rightarrow> ASNRequest" where
  "fillAS u as0 created req =
     req\<lparr>ASN := as_ASN as0, Prefix := as_CIDR as0,
         Registry := registryName (as_Registry as0),
         AllocationDate := created,
         Description := as_Description as0,
         Tag := SourceType u, Source := umbrellaName\<rparr>"

function executeASNAddrQuery :: "env \<Rightarrow> Umbrella \<Rightarrow> world \<Rightarrow> ASNRequest \<Rightarrow> world \<times> ASNRequest"
  and executeASNQuery :: "env \<Rightarrow> Umbrella \<Rightarrow> world \<Rightarrow> ASNRequest \<Rightarrow> world \<times> ASNRequest"
where
  "executeASNAddrQuery e u w req =
     (case RequestWebPage e (ncalls w) (RestAddrToASN (Address req)) (restHeaders u) of
        None \<Rightarrow> (w @ [Call (RestAddrToASN (Address req))], req)
      | Some page \<Rightarrow>
         (case json_as e page of
            None \<Rightarrow> (w @ [Call (RestAddrToASN (Address req))], req)
          | Some [] \<Rightarrow> (w @ [Call (RestAddrToASN (Address req))], req)
          | Some (as0 # rest) \<Rightarrow>
             (case ParseDate e (as_Date as0) of
                None \<Rightarrow> (w @ [Call (RestAddrToASN (Address req))], req)
              | Some created \<Rightarrow>
                 (if Netblocks req = []
                  then (case executeASNQuery e u
                               (CheckRateLimit (w @ [Call (RestAddrToASN (Address req))]))
                               ((fillAS u as0 created req)
                                  \<lparr>Netblocks := [TrimSpace (Prefix (fillAS u as0 created req))]\<rparr>) of
                          (w3, req3) \<Rightarrow> (w3 @ [Update req3], req3))
                  else (w @ [Call (RestAddrToASN (Address req)),
                             Update (fillAS u as0 created req)],
                        fillAS u as0 created req)))))"
| "executeASNQuery e u w req =
     (case RequestWebPage e (ncalls w) (RestASNToCIDRs (ASN req)) (restHeaders u) of
        None \<Rightarrow> (w @ [Call (RestASNToCIDRs (ASN req))], req)
      | Some page \<Rightarrow>
         (case json_netblock e page of
            None \<Rightarrow> (w @ [Call (RestASNToCIDRs (ASN req))], req)
          | Some [] \<Rightarrow> (w @ [Call (RestASNToCIDRs (ASN req))], req)
          | Some (nb0 # nbs) \<Rightarrow>
             (if Prefix (appendNetblocks (nb0 # nbs) req) = ''''
              then (case ParseCIDR e (nb_CIDR nb0) of
                      Some (addr, ipn) \<Rightarrow>
                        executeASNAddrQuery e u
                          (CheckRateLimit (w @ [Call (RestASNToCIDRs (ASN req))]))
                          ((appendNetblocks (nb0 # nbs) req)
                             \<lparr>Address := IPString e addr, CC := nb_CountryCode nb0\<rparr>)
                    | None \<Rightarrow>
                        (w @ [Call (RestASNToCIDRs (ASN req))],
                         finishCC (nb0 # nbs) (appendNetblocks (nb0 # nbs) req)))
              else (w @ [Call (RestASNToCIDRs (ASN req))],
                    finishCC (nb0 # nbs) (appendNetblocks (nb0 # nbs) req)))))"
  by pat_completeness auto

termination
proof (relation "measure (\<lambda>x. case x of
                    Inl (e, u, w, req) \<Rightarrow> (if Netblocks req = [] then 2 else 0)
                  | Inr (e, u, w, req) \<Rightarrow> 1)")
  show "wf (measure (\<lambda>x. case x of
                    Inl (e, u, w, req) \<Rightarrow> (if Netblocks req = [] then 2 else 0)
                  | Inr (e, u, w, req) \<Rightarrow> (1::nat)))"
    by simp
next
  fix e :: env and u :: Umbrella and w :: world and req :: ASNRequest
  fix as0 :: as_entry and created :: int
  assume "Netblocks req = []"
  then show "(Inr (e, u, CheckRateLimit (w @ [Call (RestAddrToASN (Address req))]),
                   (fillAS u as0 created req)
                     \<lparr>Netblocks := [TrimSpace (Prefix (fillAS u as0 created req))]\<rparr>),
              Inl (e, u, w, req))
             \<in> measure (\<lambda>x. case x of
                    Inl (e, u, w, req) \<Rightarrow> (if Netblocks req = [] then 2 else 0)
                  | Inr (e, u, w, req) \<Rightarrow> (1::nat))"
    by simp
next
  fix e :: env and u :: Umbrella and w :: world and req :: ASNRequest
  fix nb0 :: netblock_entry and nbs :: "netblock_entry list" and addr :: ip
  show "(Inl (e, u, CheckRateLimit (w @ [Call (RestASNToCIDRs (ASN req))]),
              (appendNetblocks (nb0 # nbs) req)
                \<lparr>Address := IPString e addr, CC := nb_CountryCode nb0\<rparr>),
         Inr (e, u, w, req))
        \<in> measure (\<lambda>x. case x of
                    Inl (e, u, w, req) \<Rightarrow> (if Netblocks req = [] then 2 else 0)
                  | Inr (e, u, w, req) \<Rightarrow> (1::nat))"
    by (simp add: Netblocks_appendNetblocks del: appendNetblocks.simps)
qed

declare executeASNAddrQuery.simps [simp del] executeASNQuery.simps [simp del]

text \<open>\<^verbatim>\<open>asnRequest\<close> of Umbrella.\<close>

definition asnRequest :: "env \<Rightarrow> Umbrella \<Rightarrow> world \<Rightarrow> ASNRequest \<Rightarrow> world \<times> ASNRequest" where
  "asnRequest e u w req =
     (if noKey (creds u) then (w, req)
      else if Address req = '''' \<and> ASN req = 0 then (w, req)
      else if Address req \<noteq> '''' then executeASNAddrQuery e u w req
      else executeASNQuery e u w req)"

text \<open>
  The direction of an outbound call of the ASN resolution, and the number of hops from
  one direction to another in a sequence of calls.
\<close>

datatype direction = AddrFirst | ASNFirst | Other

fun direction_of :: "query \<Rightarrow> direction" where
  "direction_of (RestAddrToASN a) = AddrFirst"
| "direction_of (RestASNToCIDRs n) = ASNFirst"
| "direction_of _ = Other"

fun hops :: "direction \<Rightarrow> direction \<Rightarrow> direction list \<Rightarrow> nat" where
  "hops a b (x # y # ds) = (if x = a \<and> y = b then 1 else 0) + hops a b (y # ds)"
| "hops a b _ = 0"


subsection \<open>String sets\<close>

text \<open>
  \<^verbatim>\<open>stringset.Set\<close>: the elements are kept without repetition. \<open>Insert\<close> stores an
  element under its key (\<open>setKey\<close>, the case folding of the library), and
  \<open>Slice\<close> lists the elements in an order the program does not control: the
  environment proposes an order for every place where a set is listed, and the proposal
  is taken when it lists the same elements.
\<close>

type_synonym stringset = "string list"

definition Insert :: "env \<Rightarrow> string \<Rightarrow> stringset \<Rightarrow> stringset" where
  "Insert e x s = (if setKey e x \<in> set s then s else s @ [setKey e x])"

definition Slice :: "env \<Rightarrow> nat \<Rightarrow> stringset \<Rightarrow> string list" where
  "Slice e site s =
     (if length (listing e site s) = length s \<and> set (listing e site s) = set s
      then listing e site s else s)"

text \<open>\<^verbatim>\<open>strings.Join\<close>.\<close>

fun Join :: "string list \<Rightarrow> string \<Rightarrow> string" where
  "Join [] sep = ''''"
| "Join [x] sep = x"
| "Join (x # y # xs) sep = x @ sep @ Join (y # xs) sep"

subsection \<open>Umbrella: reverse WHOIS\<close>

definition whoisBaseURL :: string where
  "whoisBaseURL = ''https://investigate.api.umbrella.com/whois/''"

definition reverseWhoisByNSURL :: "string list \<Rightarrow> string" where
  "reverseWhoisByNSURL ns = whoisBaseURL @ ''nameservers?nameServerList='' @ Join ns '',''"

definition reverseWhoisByEmailURL :: "string list \<Rightarrow> string" where
  "reverseWhoisByEmailURL emails = whoisBaseURL @ ''emails?emailList='' @ Join emails '',''"

definition validateScope :: "env \<Rightarrow> string \<Rightarrow> bool" where
  "validateScope e input = (input \<noteq> '''' \<and> IsDomainInScope e input)"

definition collateEmails :: "env \<Rightarrow> whoisRecord \<Rightarrow> string list" where
  "collateEmails e record =
     Slice e 0
       (foldl (\<lambda>emails x. if validateScope e x then Insert e x emails else emails) []
          [AdminContactEmail record, BillingContactEmail record, RegistrantEmail record,
           TechContactEmail record, ZoneContactEmail record])"

definition queryWhois :: "env \<Rightarrow> Umbrella \<Rightarrow> world \<Rightarrow> string \<Rightarrow> world \<times> whoisRecord option" where
  "queryWhois e u w domain =
     (case RequestWebPage e (ncalls (CheckRateLimit w)) (WhoisRecord domain) (restHeaders u) of
        None \<Rightarrow> (CheckRateLimit w @ [Call (WhoisRecord domain)], None)
      | Some record \<Rightarrow> (CheckRateLimit w @ [Call (WhoisRecord domain)], json_whois e record))"

text \<open>
  \<^verbatim>\<open>json.Unmarshal\<close> into the map \<^verbatim>\<open>whois\<close>, which is declared before the loop and
  handed to every page: the members of the page are stored under their keys and the
  entries of earlier pages under other keys stay; the value null empties the map. The map is a list of pairs with
  distinct keys.
\<close>

fun mapStore :: "string \<Rightarrow> 'v \<Rightarrow> (string \<times> 'v) list \<Rightarrow> (string \<times> 'v) list" where
  "mapStore k v [] = [(k, v)]"
| "mapStore k v ((k', v') # m) = (if k = k' then (k, v) # m else (k', v') # mapStore k v m)"

definition UnmarshalMap ::
  "(string \<times> 'v) list option \<Rightarrow> (string \<times> 'v) list \<Rightarrow> (string \<times> 'v) list" where
  "UnmarshalMap decoded m =
     (case decoded of
        None \<Rightarrow> []
      | Some members \<Rightarrow> foldl (\<lambda>m kv. mapStore (fst kv) (snd kv) m) m members)"

text \<open>The body of the loop over the decoded map: the current domains, and the flag.\<close>

fun insertCurrent :: "env \<Rightarrow> rWhoisDomain list \<Rightarrow> stringset \<Rightarrow> stringset" where
  "insertCurrent e [] domains = domains"
| "insertCurrent e (d # ds) domains =
     insertCurrent e ds (if rw_Current d then Insert e (rw_Domain d) domains else domains)"

fun scanResults :: "env \<Rightarrow> rWhoisResponse list \<Rightarrow> stringset \<Rightarrow> bool \<Rightarrow> stringset \<times> bool" where
  "scanResults e [] domains more' = (domains, more')"
| "scanResults e (result # rs) domains more' =
     scanResults e rs
       (if TotalResults result > 0 then insertCurrent e (Domains result) domains else domains)
       (if MoreData result \<and> \<not> more' then True else more')"

text \<open>
  \<^verbatim>\<open>queryReverseWhois\<close>. The loop runs as long as the provider reports more data, which
  it can do forever: the function takes the number of iterations it may use and returns
  \<open>None\<close> when they do not suffice.
\<close>

fun reverseWhoisLoop ::
  "nat \<Rightarrow> env \<Rightarrow> Umbrella \<Rightarrow> string \<Rightarrow> world \<Rightarrow> (string \<times> rWhoisResponse) list \<Rightarrow> nat
     \<Rightarrow> stringset \<Rightarrow> (world \<times> string list) option" where
  "reverseWhoisLoop 0 e u apiURL w whois count domains = None"
| "reverseWhoisLoop (Suc fuel) e u apiURL w whois count domains =
     (case RequestWebPage e (ncalls (CheckRateLimit w)) (ReverseWhois apiURL count) (restHeaders u) of
        None \<Rightarrow> Some (CheckRateLimit w @ [Call (ReverseWhois apiURL count)], Slice e 1 domains)
      | Some record \<Rightarrow>
         (case json_rwhois e record of
            None \<Rightarrow> Some (CheckRateLimit w @ [Call (ReverseWhois apiURL count)], Slice e 1 domains)
          | Some members \<Rightarrow>
             (if snd (scanResults e (map snd (UnmarshalMap members whois)) domains False)
              then reverseWhoisLoop fuel e u apiURL
                     (CheckRateLimit w @ [Call (ReverseWhois apiURL count)])
                     (UnmarshalMap members whois) (count + 500)
                     (fst (scanResults e (map snd (UnmarshalMap members whois)) domains False))
              else Some (CheckRateLimit w @ [Call (ReverseWhois apiURL count)],
                         Slice e 1
                           (fst (scanResults e (map snd (UnmarshalMap members whois)) domains False))))))"

definition queryReverseWhois ::
  "nat \<Rightarrow> env \<Rightarrow> Umbrella \<Rightarrow> world \<Rightarrow> string \<Rightarrow> (world \<times> string list) option" where
  "queryReverseWhois fuel e u w apiURL = reverseWhoisLoop fuel e u apiURL w [] 0 []"

text \<open>The domains of a reverse lookup that are not in scope, added to the new domains.\<close>

fun insertOutOfScope :: "env \<Rightarrow> string list \<Rightarrow> stringset \<Rightarrow> stringset" where
  "insertOutOfScope e [] domains = domains"
| "insertOutOfScope e (d # ds) domains =
     insertOutOfScope e ds (if \<not> IsDomainInScope e d then Insert e d domains else domains)"

definition reverseLookup ::
  "nat \<Rightarrow> env \<Rightarrow> Umbrella \<Rightarrow> world \<Rightarrow> string list \<Rightarrow> string \<Rightarrow> stringset
     \<Rightarrow> (world \<times> stringset) option" where
  "reverseLookup fuel e u w keys apiURL domains =
     (if length keys > 0
      then (case queryReverseWhois fuel e u w apiURL of
              None \<Rightarrow> None
            | Some (w', ds) \<Rightarrow> Some (w', insertOutOfScope e ds domains))
      else Some (w, domains))"

definition whoisRequest :: "nat \<Rightarrow> env \<Rightarrow> Umbrella \<Rightarrow> world \<Rightarrow> WhoisRequest \<Rightarrow> world option" where
  "whoisRequest fuel e u w req =
     (if noKey (creds u) then Some w
      else if \<not> IsDomainInScope e (WDomain req) then Some w
      else (case queryWhois e u w (WDomain req) of
              (w1, None) \<Rightarrow> Some w1
            | (w1, Some record) \<Rightarrow>
               (case reverseLookup fuel e u w1 (collateEmails e record)
                       (reverseWhoisByEmailURL (collateEmails e record)) [] of
                  None \<Rightarrow> None
                | Some (w2, domains) \<Rightarrow>
                   (case reverseLookup fuel e u w2
                           (filter (validateScope e) (NameServers record))
                           (reverseWhoisByNSURL (filter (validateScope e) (NameServers record)))
                           domains of
                      None \<Rightarrow> None
                    | Some (w3, domains') \<Rightarrow>
                       Some (if length domains' > 0
                             then w3 @ [Emit \<lparr>WDomain = WDomain req, NewDomains = Slice e 2 domains',
                                              WTag = SourceType u, WSource = umbrellaName\<rparr>]
                             else w3)))))"

subsection \<open>Networks and containment\<close>

text \<open>
  \<^verbatim>\<open>IPNet.Contains\<close> of package \<^verbatim>\<open>net\<close>: the address, if there is one and it has the width
  of the network, agrees with the network number under the mask. The argument is
  \<open>None\<close> for the nil address \<^verbatim>\<open>net.ParseIP\<close> returns for a text that is no address.
\<close>

fun Contains :: "ipnet \<Rightarrow> ip option \<Rightarrow> bool" where
  "Contains (IPNet4 nn m) (Some (IPv4 a)) = (nn AND m = a AND m)"
| "Contains (IPNet6 nn m) (Some (IPv6 a)) = (nn AND m = a AND m)"
| "Contains _ _ = False"

text \<open>
  The test of the three loops over netblocks:
  \<^verbatim>\<open>_, ipnet, err := net.ParseCIDR(cidr); err == nil && ipnet.Contains(ip)\<close>.
\<close>

definition containsIP :: "env \<Rightarrow> ip option \<Rightarrow> string \<Rightarrow> bool" where
  "containsIP e ip cidr =
     (case ParseCIDR e cidr of None \<Rightarrow> False | Some (a, ipnet) \<Rightarrow> Contains ipnet ip)"

text \<open>The loop that picks the prefix: the first netblock that contains the address.\<close>

fun prefixLoop :: "env \<Rightarrow> ip option \<Rightarrow> string list \<Rightarrow> string" where
  "prefixLoop e ip [] = ''''"
| "prefixLoop e ip (cidr # cidrs) = (if containsIP e ip cidr then cidr else prefixLoop e ip cidrs)"

subsection \<open>NetworksDB\<close>

text \<open>
  The service after \<^verbatim>\<open>OnStart\<close>: without a key it scrapes. \<^verbatim>\<open>getHeaders\<close> reads the key
  only when \<^verbatim>\<open>hasAPIKey\<close> is set, which \<^verbatim>\<open>OnStart\<close> clears when there are no credentials.
\<close>

record NetworksDB =
  ndbSourceType :: string
  ndbCreds :: "Credentials option"
  hasAPIKey :: bool

definition OnStart :: "Credentials option \<Rightarrow> NetworksDB" where
  "OnStart c =
     (if noKey c then \<lparr>ndbSourceType = ''scrape'', ndbCreds = c, hasAPIKey = False\<rparr>
      else \<lparr>ndbSourceType = ''api'', ndbCreds = c, hasAPIKey = True\<rparr>)"

definition networksdbName :: string where
  "networksdbName = ''NetworksDB''"

definition networksdbBaseURL :: string where
  "networksdbBaseURL = ''https://networksdb.io''"

definition getHeaders :: "NetworksDB \<Rightarrow> (string \<times> string) list" where
  "getHeaders n =
     (if \<not> hasAPIKey n then []
      else [(''X-Api-Key'', case ndbCreds n of None \<Rightarrow> '''' | Some k \<Rightarrow> Key k),
            (''Content-Type'', ''application/x-www-form-urlencoded'')])"

definition numRateLimitChecks :: "nat \<Rightarrow> world \<Rightarrow> world" where
  "numRateLimitChecks num w = w @ [Checks num]"

text \<open>A function of NetworksDB returns, or the program panics; both leave a trace.\<close>

datatype 'a outcome = Returns world 'a | Panics world

fun traceOf :: "'a outcome \<Rightarrow> world" where
  "traceOf (Returns w x) = w"
| "traceOf (Panics w) = w"


text \<open>\<^verbatim>\<open>strconv.Itoa\<close>, for the URL of an AS page.\<close>

fun digitsOf :: "nat \<Rightarrow> string" where
  "digitsOf n =
     (if n < 10 then [''0123456789'' ! n]
      else digitsOf (n div 10) @ [''0123456789'' ! (n mod 10)])"

declare digitsOf.simps [simp del]

definition Itoa :: "int \<Rightarrow> string" where
  "Itoa i = (if i < 0 then ''-'' @ digitsOf (nat (- i)) else digitsOf (nat i))"

definition getIPURL :: "string \<Rightarrow> string" where
  "getIPURL addr = networksdbBaseURL @ ''/ip/'' @ addr"

definition getASNURL :: "int \<Rightarrow> string" where
  "getASNURL asn = networksdbBaseURL @ ''/autonomous-system/AS'' @ Itoa asn"

definition getDomainToIPURL :: "string \<Rightarrow> string" where
  "getDomainToIPURL domain = networksdbBaseURL @ ''/domain-to-ips/'' @ domain"

definition getDomainsInNetworkURL :: "string \<Rightarrow> string \<Rightarrow> string" where
  "getDomainsInNetworkURL first last' =
     networksdbBaseURL @ ''/domains-in-network/'' @ first @ ''/'' @ last'"

text \<open>The four queries of the API. The results of the IP query are pairs of organisation
  identifier and CIDR.\<close>

definition apiIPQuery :: "env \<Rightarrow> NetworksDB \<Rightarrow> world \<Rightarrow> string \<Rightarrow> world \<times> string \<times> string" where
  "apiIPQuery e n w addr =
     (case RequestWebPage e (ncalls (numRateLimitChecks 3 w)) (ApiIP addr) (getHeaders n) of
        None \<Rightarrow> (numRateLimitChecks 3 w @ [Call (ApiIP addr)], '''', '''')
      | Some page \<Rightarrow>
         (case json_ip e page of
            None \<Rightarrow> (numRateLimitChecks 3 w @ [Call (ApiIP addr)], '''', '''')
          | Some m \<Rightarrow>
             (if ip_Error m \<noteq> '''' then (numRateLimitChecks 3 w @ [Call (ApiIP addr)], '''', '''')
              else if ip_Total m = 0 \<or> length (ip_Results m) = 0
              then (numRateLimitChecks 3 w @ [Call (ApiIP addr)], '''', '''')
              else (case ip_Results m of
                      [] \<Rightarrow> (numRateLimitChecks 3 w @ [Call (ApiIP addr)], '''', '''')
                    | (org, cidr) # rest \<Rightarrow>
                        (numRateLimitChecks 3 w @ [Call (ApiIP addr)], cidr, org)))))"

text \<open>
  \<^verbatim>\<open>apiOrgInfoQuery\<close> reads \<^verbatim>\<open>m.Results[0]\<close> after testing only \<^verbatim>\<open>m.Total\<close>: with a total
  that is not zero and no results the index is out of range.
\<close>

definition apiOrgInfoQuery :: "env \<Rightarrow> NetworksDB \<Rightarrow> world \<Rightarrow> string \<Rightarrow> int list outcome" where
  "apiOrgInfoQuery e n w orgid =
     (case RequestWebPage e (ncalls (numRateLimitChecks 3 w)) (ApiOrgInfo orgid) (getHeaders n) of
        None \<Rightarrow> Returns (numRateLimitChecks 3 w @ [Call (ApiOrgInfo orgid)]) []
      | Some page \<Rightarrow>
         (case json_org e page of
            None \<Rightarrow> Returns (numRateLimitChecks 3 w @ [Call (ApiOrgInfo orgid)]) []
          | Some m \<Rightarrow>
             (if org_Error m \<noteq> '''' then Returns (numRateLimitChecks 3 w @ [Call (ApiOrgInfo orgid)]) []
              else if org_Total m = 0 then Returns (numRateLimitChecks 3 w @ [Call (ApiOrgInfo orgid)]) []
              else (case org_Results m of
                      [] \<Rightarrow> Panics (numRateLimitChecks 3 w @ [Call (ApiOrgInfo orgid)])
                    | asns # rest \<Rightarrow>
                        (if length asns = 0
                         then Returns (numRateLimitChecks 3 w @ [Call (ApiOrgInfo orgid)]) []
                         else Returns (numRateLimitChecks 3 w @ [Call (ApiOrgInfo orgid)]) asns)))))"

definition apiASNInfoQuery ::
  "env \<Rightarrow> NetworksDB \<Rightarrow> world \<Rightarrow> int \<Rightarrow> world \<times> ASNRequest option" where
  "apiASNInfoQuery e n w asn =
     (case RequestWebPage e (ncalls (numRateLimitChecks 3 w)) (ApiASNInfo asn) (getHeaders n) of
        None \<Rightarrow> (numRateLimitChecks 3 w @ [Call (ApiASNInfo asn)], None)
      | Some page \<Rightarrow>
         (case json_asn e page of
            None \<Rightarrow> (numRateLimitChecks 3 w @ [Call (ApiASNInfo asn)], None)
          | Some m \<Rightarrow>
             (if asn_Error m \<noteq> '''' then (numRateLimitChecks 3 w @ [Call (ApiASNInfo asn)], None)
              else if asn_Total m = 0 \<or> length (asn_Results m) = 0
              then (numRateLimitChecks 3 w @ [Call (ApiASNInfo asn)], None)
              else (case asn_Results m of
                      [] \<Rightarrow> (numRateLimitChecks 3 w @ [Call (ApiASNInfo asn)], None)
                    | r # rest \<Rightarrow>
                        (numRateLimitChecks 3 w @ [Call (ApiASNInfo asn)],
                         Some \<lparr>Address = '''', ASN = r_ASN r, Prefix = '''',
                               CC = r_CountryCode r, Registry = '''', AllocationDate = 0,
                               Description = r_Description r @ '', '' @ r_CountryCode r,
                               Netblocks = [], Tag = ndbSourceType n,
                               Source = networksdbName\<rparr>)))))"

definition apiNetblocksQuery :: "env \<Rightarrow> NetworksDB \<Rightarrow> world \<Rightarrow> int \<Rightarrow> world \<times> stringset" where
  "apiNetblocksQuery e n w asn =
     (case RequestWebPage e (ncalls (numRateLimitChecks 3 w)) (ApiNetblocks asn) (getHeaders n) of
        None \<Rightarrow> (numRateLimitChecks 3 w @ [Call (ApiNetblocks asn)], [])
      | Some page \<Rightarrow>
         (case json_networks e page of
            None \<Rightarrow> (numRateLimitChecks 3 w @ [Call (ApiNetblocks asn)], [])
          | Some m \<Rightarrow>
             (if net_Error m \<noteq> '''' then (numRateLimitChecks 3 w @ [Call (ApiNetblocks asn)], [])
              else if net_Total m = 0 \<or> length (net_Results m) = 0
              then (numRateLimitChecks 3 w @ [Call (ApiNetblocks asn)], [])
              else (numRateLimitChecks 3 w @ [Call (ApiNetblocks asn)],
                    foldl (\<lambda>netblocks block. Insert e block netblocks) [] (net_Results m)))))"

text \<open>
  \<^verbatim>\<open>executeAPIASNQuery\<close>; \<open>None\<close> for the nil set. \<open>resolvePrefix\<close> is the part
  after the netblocks are known: it picks the prefix, reading the first element of the
  listing without a test when no netblock contains the address, asks for the
  description of the AS and hands the result to the cache.
\<close>

definition resolvePrefix ::
  "env \<Rightarrow> NetworksDB \<Rightarrow> world \<Rightarrow> int \<Rightarrow> string \<Rightarrow> stringset \<Rightarrow> unit outcome" where
  "resolvePrefix e n w asn addr netblocks =
     (case (if (if addr \<noteq> '''' then prefixLoop e (ParseIP e addr) (Slice e 4 netblocks)
                else '''') = ''''
            then (case Slice e 5 netblocks of [] \<Rightarrow> None | x # xs \<Rightarrow> Some x)
            else Some (prefixLoop e (ParseIP e addr) (Slice e 4 netblocks))) of
        None \<Rightarrow> Panics w
      | Some prefix \<Rightarrow>
         (case apiASNInfoQuery e n (numRateLimitChecks 3 w) asn of
            (w2, None) \<Rightarrow> Returns w2 ()
          | (w2, Some req) \<Rightarrow>
              Returns (w2 @ [Update (req\<lparr>Address := (if addr \<noteq> '''' then addr
                                                      else Address req),
                                          Prefix := prefix,
                                          Netblocks := Slice e 6 netblocks\<rparr>)]) ()))"

definition executeAPIASNQuery ::
  "env \<Rightarrow> NetworksDB \<Rightarrow> world \<Rightarrow> int \<Rightarrow> string \<Rightarrow> stringset option \<Rightarrow> unit outcome" where
  "executeAPIASNQuery e n w asn addr given =
     (if length (case given of None \<Rightarrow> [] | Some s \<Rightarrow> s) = 0
      then (if length (foldl (\<lambda>s x. Insert e x s) []
                         (Slice e 3 (snd (apiNetblocksQuery e n w asn)))) = 0
            then Returns (fst (apiNetblocksQuery e n w asn)) ()
            else resolvePrefix e n (fst (apiNetblocksQuery e n w asn)) asn addr
                   (foldl (\<lambda>s x. Insert e x s) []
                      (Slice e 3 (snd (apiNetblocksQuery e n w asn)))))
      else resolvePrefix e n w asn addr (case given of None \<Rightarrow> [] | Some s \<Rightarrow> s))"

text \<open>
  The loop of \<^verbatim>\<open>executeAPIASNAddrQuery\<close> over the candidates: the netblocks of each are
  queried, and the loop is left at the first candidate with a netblock that contains the
  address. It returns the chosen number, 0 when the loop runs to its end, and the
  netblocks queried last.
\<close>

fun candidateLoop ::
  "env \<Rightarrow> NetworksDB \<Rightarrow> world \<Rightarrow> ip option \<Rightarrow> int list \<Rightarrow> stringset
     \<Rightarrow> world \<times> int \<times> stringset" where
  "candidateLoop e n w ip [] cidrs = (w, 0, cidrs)"
| "candidateLoop e n w ip (a # asns) cidrs =
     (if list_ex (containsIP e ip)
           (Slice e 7 (snd (apiNetblocksQuery e n (numRateLimitChecks 3 w) a)))
      then (fst (apiNetblocksQuery e n (numRateLimitChecks 3 w) a), a,
            snd (apiNetblocksQuery e n (numRateLimitChecks 3 w) a))
      else candidateLoop e n (fst (apiNetblocksQuery e n (numRateLimitChecks 3 w) a)) ip asns
             (snd (apiNetblocksQuery e n (numRateLimitChecks 3 w) a)))"

definition executeAPIASNAddrQuery :: "env \<Rightarrow> NetworksDB \<Rightarrow> world \<Rightarrow> string \<Rightarrow> unit outcome" where
  "executeAPIASNAddrQuery e n w addr =
     (case apiIPQuery e n w addr of
        (w1, cidr, orgid) \<Rightarrow>
          (if orgid = '''' then Returns w1 ()
           else (case apiOrgInfoQuery e n (numRateLimitChecks 3 w1) orgid of
                   Panics w2 \<Rightarrow> Panics w2
                 | Returns w2 asns \<Rightarrow>
                     (if length asns = 0 then Returns w2 ()
                      else (case candidateLoop e n w2 (ParseIP e addr) asns [] of
                              (w3, asn, cidrs) \<Rightarrow>
                                (if asn = 0 then Returns w3 ()
                                 else executeAPIASNQuery e n w3 asn addr (Some cidrs)))))))"

text \<open>The scrape path. \<open>insertCIDRs\<close> is the loop over the matches of the CIDR pattern.\<close>

definition insertCIDRs :: "env \<Rightarrow> string \<Rightarrow> stringset \<Rightarrow> stringset" where
  "insertCIDRs e page netblocks =
     foldl (\<lambda>s m. if length m \<ge> 2 then Insert e (TrimSpace (m ! 1)) s else s) netblocks
       (CIDRRE e page)"

definition executeASNQuery_ndb ::
  "env \<Rightarrow> NetworksDB \<Rightarrow> world \<Rightarrow> int \<Rightarrow> string \<Rightarrow> stringset \<Rightarrow> world" where
  "executeASNQuery_ndb e n w asn addr netblocks0 =
     (case RequestWebPage e (ncalls (numRateLimitChecks 3 w)) (Scrape (getASNURL asn)) [] of
        None \<Rightarrow> numRateLimitChecks 3 w @ [Call (Scrape (getASNURL asn))]
      | Some page \<Rightarrow>
         (case ASNameRE e page of
            None \<Rightarrow> numRateLimitChecks 3 w @ [Call (Scrape (getASNURL asn))]
          | Some [] \<Rightarrow> numRateLimitChecks 3 w @ [Call (Scrape (getASNURL asn))]
          | Some [m0] \<Rightarrow> numRateLimitChecks 3 w @ [Call (Scrape (getASNURL asn))]
          | Some (m0 # name # ms) \<Rightarrow>
             (case CCRE e page of
                None \<Rightarrow> numRateLimitChecks 3 w @ [Call (Scrape (getASNURL asn))]
              | Some [] \<Rightarrow> numRateLimitChecks 3 w @ [Call (Scrape (getASNURL asn))]
              | Some [c0] \<Rightarrow> numRateLimitChecks 3 w @ [Call (Scrape (getASNURL asn))]
              | Some (c0 # cc # cs) \<Rightarrow>
                 (let netblocks = insertCIDRs e page netblocks0;
                      prefix = (if addr \<noteq> ''''
                                then prefixLoop e (ParseIP e addr) (Slice e 8 netblocks)
                                else '''');
                      prefix' = (if prefix = '''' \<and> length netblocks > 0
                                 then (case Slice e 9 netblocks of [] \<Rightarrow> prefix | x # xs \<Rightarrow> x)
                                 else prefix)
                  in numRateLimitChecks 3 w @
                     [Call (Scrape (getASNURL asn)),
                      Update \<lparr>Address = addr, ASN = asn, Prefix = prefix',
                              CC = TrimSpace cc, Registry = '''', AllocationDate = 0,
                              Description = TrimSpace name @ '', '' @ TrimSpace cc,
                              Netblocks = Slice e 10 netblocks,
                              Tag = ndbSourceType n, Source = networksdbName\<rparr>]))))"

definition executeASNAddrQuery_ndb :: "env \<Rightarrow> NetworksDB \<Rightarrow> world \<Rightarrow> string \<Rightarrow> world" where
  "executeASNAddrQuery_ndb e n w addr =
     (case RequestWebPage e (ncalls w) (Scrape (getIPURL addr)) [] of
        None \<Rightarrow> w @ [Call (Scrape (getIPURL addr))]
      | Some page \<Rightarrow>
         (case ASNLinkRE e page of
            None \<Rightarrow> w @ [Call (Scrape (getIPURL addr))]
          | Some [] \<Rightarrow> w @ [Call (Scrape (getIPURL addr))]
          | Some [m0] \<Rightarrow> w @ [Call (Scrape (getIPURL addr))]
          | Some (m0 # href # ms) \<Rightarrow>
             (case RequestWebPage e
                     (ncalls (numRateLimitChecks 3 (w @ [Call (Scrape (getIPURL addr))])))
                     (Scrape (networksdbBaseURL @ href)) [] of
                None \<Rightarrow> numRateLimitChecks 3 (w @ [Call (Scrape (getIPURL addr))])
                          @ [Call (Scrape (networksdbBaseURL @ href))]
              | Some page2 \<Rightarrow>
                 (case ASNRE e page2 of
                    None \<Rightarrow> numRateLimitChecks 3 (w @ [Call (Scrape (getIPURL addr))])
                              @ [Call (Scrape (networksdbBaseURL @ href))]
                  | Some [] \<Rightarrow> numRateLimitChecks 3 (w @ [Call (Scrape (getIPURL addr))])
                                 @ [Call (Scrape (networksdbBaseURL @ href))]
                  | Some [a0] \<Rightarrow> numRateLimitChecks 3 (w @ [Call (Scrape (getIPURL addr))])
                                   @ [Call (Scrape (networksdbBaseURL @ href))]
                  | Some (a0 # num # rest) \<Rightarrow>
                     (case Atoi e (TrimSpace num) of
                        None \<Rightarrow> numRateLimitChecks 3 (w @ [Call (Scrape (getIPURL addr))])
                                  @ [Call (Scrape (networksdbBaseURL @ href))]
                      | Some asn \<Rightarrow>
                          executeASNQuery_ndb e n
                            (numRateLimitChecks 3 (w @ [Call (Scrape (getIPURL addr))])
                               @ [Call (Scrape (networksdbBaseURL @ href))])
                            asn addr (insertCIDRs e page2 []))))))"

definition asnRequest_ndb :: "env \<Rightarrow> NetworksDB \<Rightarrow> world \<Rightarrow> ASNRequest \<Rightarrow> unit outcome" where
  "asnRequest_ndb e n w req =
     (if Address req = '''' \<and> ASN req = 0 then Returns w ()
      else if hasAPIKey n
      then (if Address req \<noteq> ''''
            then executeAPIASNAddrQuery e n (numRateLimitChecks 2 w) (Address req)
            else executeAPIASNQuery e n (numRateLimitChecks 2 w) (ASN req) '''' None)
      else (if Address req \<noteq> ''''
            then Returns (executeASNAddrQuery_ndb e n (numRateLimitChecks 2 w) (Address req)) ()
            else Returns (executeASNQuery_ndb e n (numRateLimitChecks 2 w) (ASN req) '''' []) ()))"

subsection \<open>NetworksDB: the domains of a network\<close>

text \<open>
  \<^verbatim>\<open>FindStringIndex\<close> of a pattern without operators, as the two markers are: the bounds
  of the first occurrence of the text.
\<close>

fun indexFrom :: "string \<Rightarrow> nat \<Rightarrow> string \<Rightarrow> nat option" where
  "indexFrom pat i [] = (if pat = [] then Some i else None)"
| "indexFrom pat i (c # cs) =
     (if take (length pat) (c # cs) = pat then Some i else indexFrom pat (Suc i) cs)"

definition FindStringIndex :: "string \<Rightarrow> string \<Rightarrow> (nat \<times> nat) option" where
  "FindStringIndex pat s =
     (case indexFrom pat 0 s of None \<Rightarrow> None | Some i \<Rightarrow> Some (i, i + length pat))"

definition networksdbDomainsRE :: string where
  "networksdbDomainsRE = ''Domains in network''"

definition networksdbTableRE :: string where
  "networksdbTableRE = ''<table class''"

text \<open>The slice expression \<^verbatim>\<open>page[start:end]\<close>: out of range, the program panics.\<close>

definition sliceString :: "string \<Rightarrow> nat \<Rightarrow> nat \<Rightarrow> string option" where
  "sliceString s start stop =
     (if start \<le> stop \<and> stop \<le> length s then Some (take (stop - start) (drop start s))
      else None)"

text \<open>
  One round of the loop of \<^verbatim>\<open>whoisRequest\<close> over the links to IP pages: the page of the
  address, the CIDR on it, the page of the domains in that network, and the names
  between the two markers. Every \<^verbatim>\<open>continue\<close> returns the set as it was.
\<close>

definition domainsOfNetwork ::
  "env \<Rightarrow> NetworksDB \<Rightarrow> world \<Rightarrow> string list \<Rightarrow> stringset \<Rightarrow> stringset outcome" where
  "domainsOfNetwork e n w match newdomains =
     (case match of
        [] \<Rightarrow> Returns w newdomains
      | [m0] \<Rightarrow> Returns w newdomains
      | m0 # href # ms \<Rightarrow>
         (case RequestWebPage e (ncalls (numRateLimitChecks 3 w))
                 (Scrape (networksdbBaseURL @ href)) [] of
            None \<Rightarrow> Returns (numRateLimitChecks 3 w @ [Call (Scrape (networksdbBaseURL @ href))])
                      newdomains
          | Some page \<Rightarrow>
             (case (case IPPageCIDRRE e page of
                      None \<Rightarrow> None
                    | Some [] \<Rightarrow> None
                    | Some [c0] \<Rightarrow> None
                    | Some (c0 # text # cs) \<Rightarrow> ParseCIDR e text) of
                None \<Rightarrow> Returns (numRateLimitChecks 3 w
                                    @ [Call (Scrape (networksdbBaseURL @ href))]) newdomains
              | Some (a, cidr) \<Rightarrow>
                 (case RequestWebPage e
                         (ncalls (numRateLimitChecks 3
                            (numRateLimitChecks 3 w @ [Call (Scrape (networksdbBaseURL @ href))])))
                         (Scrape (getDomainsInNetworkURL (IPString e (fst (FirstLast e cidr)))
                                    (IPString e (snd (FirstLast e cidr))))) [] of
                    None \<Rightarrow>
                      Returns (numRateLimitChecks 3
                                 (numRateLimitChecks 3 w @ [Call (Scrape (networksdbBaseURL @ href))])
                               @ [Call (Scrape (getDomainsInNetworkURL
                                          (IPString e (fst (FirstLast e cidr)))
                                          (IPString e (snd (FirstLast e cidr)))))])
                        newdomains
                  | Some page' \<Rightarrow>
                     (case (FindStringIndex networksdbDomainsRE page',
                            FindStringIndex networksdbTableRE page') of
                        (Some domainsPos, Some tablePos) \<Rightarrow>
                          (case sliceString page' (snd domainsPos) (snd tablePos) of
                             None \<Rightarrow>
                               Panics (numRateLimitChecks 3
                                  (numRateLimitChecks 3 w
                                     @ [Call (Scrape (networksdbBaseURL @ href))])
                                  @ [Call (Scrape (getDomainsInNetworkURL
                                          (IPString e (fst (FirstLast e cidr)))
                                          (IPString e (snd (FirstLast e cidr)))))])
                           | Some region \<Rightarrow>
                               Returns (numRateLimitChecks 3
                                  (numRateLimitChecks 3 w
                                     @ [Call (Scrape (networksdbBaseURL @ href))])
                                  @ [Call (Scrape (getDomainsInNetworkURL
                                          (IPString e (fst (FirstLast e cidr)))
                                          (IPString e (snd (FirstLast e cidr)))))])
                                 (foldl (\<lambda>s d. Insert e (TrimSpace d) s) newdomains
                                    (AnySubdomainRegex e region)))
                      | _ \<Rightarrow>
                          Returns (numRateLimitChecks 3
                                  (numRateLimitChecks 3 w
                                     @ [Call (Scrape (networksdbBaseURL @ href))])
                                  @ [Call (Scrape (getDomainsInNetworkURL
                                          (IPString e (fst (FirstLast e cidr)))
                                          (IPString e (snd (FirstLast e cidr)))))])
                            newdomains)))))"

fun ipPagesLoop ::
  "env \<Rightarrow> NetworksDB \<Rightarrow> world \<Rightarrow> string list list \<Rightarrow> stringset \<Rightarrow> stringset outcome" where
  "ipPagesLoop e n w [] newdomains = Returns w newdomains"
| "ipPagesLoop e n w (match # matches) newdomains =
     (case domainsOfNetwork e n w match newdomains of
        Panics w' \<Rightarrow> Panics w'
      | Returns w' newdomains' \<Rightarrow> ipPagesLoop e n w' matches newdomains')"

definition whoisRequest_ndb :: "env \<Rightarrow> NetworksDB \<Rightarrow> world \<Rightarrow> WhoisRequest \<Rightarrow> unit outcome" where
  "whoisRequest_ndb e n w req =
     (if \<not> IsDomainInScope e (WDomain req) then Returns w ()
      else (case RequestWebPage e (ncalls (numRateLimitChecks 2 w))
                   (Scrape (getDomainToIPURL (WDomain req))) [] of
              None \<Rightarrow> Returns (numRateLimitChecks 2 w
                                @ [Call (Scrape (getDomainToIPURL (WDomain req)))]) ()
            | Some page \<Rightarrow>
               (case IPLinkRE e page of
                  None \<Rightarrow> Returns (numRateLimitChecks 2 w
                                    @ [Call (Scrape (getDomainToIPURL (WDomain req)))]) ()
                | Some matches \<Rightarrow>
                   (case ipPagesLoop e n
                           (numRateLimitChecks 2 w
                              @ [Call (Scrape (getDomainToIPURL (WDomain req)))])
                           matches [] of
                      Panics w' \<Rightarrow> Panics w'
                    | Returns w' newdomains \<Rightarrow>
                       Returns (if length (Slice e 11 newdomains) > 0
                                then w' @ [Emit \<lparr>WDomain = WDomain req,
                                                 NewDomains = Slice e 12 newdomains,
                                                 WTag = ndbSourceType n,
                                                 WSource = networksdbName\<rparr>]
                                else w') ()))))"

subsection \<open>The dispatch loops\<close>

text \<open>The two other requests of Umbrella; each name found goes to \<^verbatim>\<open>genNewNameEvent\<close>.\<close>

definition dnsRequest :: "env \<Rightarrow> Umbrella \<Rightarrow> world \<Rightarrow> string \<Rightarrow> world" where
  "dnsRequest e u w domain =
     (if noKey (creds u) then w
      else if \<not> IsDomainInScope e domain then w
      else (case RequestWebPage e (ncalls w) (RestDNS domain) (restHeaders u) of
              None \<Rightarrow> w @ [Call (RestDNS domain)]
            | Some page \<Rightarrow>
               (case json_dns e page of
                  None \<Rightarrow> w @ [Call (RestDNS domain)]
                | Some names \<Rightarrow> w @ [Call (RestDNS domain)] @ map NewName names)))"

definition addrRequest :: "env \<Rightarrow> Umbrella \<Rightarrow> world \<Rightarrow> string \<Rightarrow> world" where
  "addrRequest e u w addr =
     (if noKey (creds u) then w
      else if addr = '''' then w
      else (case RequestWebPage e (ncalls w) (RestAddr addr) (restHeaders u) of
              None \<Rightarrow> w @ [Call (RestAddr addr)]
            | Some page \<Rightarrow>
               (case json_pdns e page of
                  None \<Rightarrow> w @ [Call (RestAddr addr)]
                | Some records \<Rightarrow>
                    w @ [Call (RestAddr addr)]
                      @ map NewName (filter (\<lambda>name. name \<noteq> '''')
                                       (map (RemoveLastDot e) records)))))"

text \<open>
  The requests a service takes from its input, and one round of each loop
  \<^verbatim>\<open>requests\<close>: the admission of the rate limiter, then the handler of the request.
  NetworksDB has no case for a DNS or an address request.
\<close>

datatype request =
    DNSRequest string
  | AddrRequest string
  | ASNReq ASNRequest
  | WhoisReq WhoisRequest

fun requests :: "nat \<Rightarrow> env \<Rightarrow> Umbrella \<Rightarrow> world \<Rightarrow> request \<Rightarrow> world option" where
  "requests fuel e u w (DNSRequest domain) = Some (dnsRequest e u (CheckRateLimit w) domain)"
| "requests fuel e u w (AddrRequest addr) = Some (addrRequest e u (CheckRateLimit w) addr)"
| "requests fuel e u w (ASNReq req) = Some (fst (asnRequest e u (CheckRateLimit w) req))"
| "requests fuel e u w (WhoisReq req) = whoisRequest fuel e u (CheckRateLimit w) req"

fun requests_ndb :: "env \<Rightarrow> NetworksDB \<Rightarrow> world \<Rightarrow> request \<Rightarrow> unit outcome" where
  "requests_ndb e n w (ASNReq req) = asnRequest_ndb e n (CheckRateLimit w) req"
| "requests_ndb e n w (WhoisReq req) = whoisRequest_ndb e n (CheckRateLimit w) req"
| "requests_ndb e n w _ = Returns w ()"

text \<open>The sequences of directions one ASN request can produce.\<close>

definition requestShapes :: "direction list set" where
  "requestShapes = {[], [AddrFirst], [AddrFirst, ASNFirst], [AddrFirst, ASNFirst, AddrFirst],
                    [ASNFirst], [ASNFirst, AddrFirst]}"

subsection \<open>Concrete environments\<close>

text \<open>An environment in which every call fails and every reader rejects its input.\<close>

definition nullEnv :: env where
  "nullEnv =
     \<lparr>RequestWebPage = (\<lambda>n q h. None), IsDomainInScope = (\<lambda>d. False),
      ParseDate = (\<lambda>s. None), ParseCIDR = (\<lambda>s. None), ParseIP = (\<lambda>s. None),
      IPString = (\<lambda>a. ''''), Atoi = (\<lambda>s. None), FirstLast = (\<lambda>n. (IPv4 0, IPv4 0)),
      setKey = (\<lambda>s. s), listing = (\<lambda>n xs. xs),
      json_as = (\<lambda>p. None), json_netblock = (\<lambda>p. None),
      json_dns = (\<lambda>p. None), json_pdns = (\<lambda>p. None), RemoveLastDot = (\<lambda>s. s),
      json_whois = (\<lambda>p. None),
      json_rwhois = (\<lambda>p. None), json_ip = (\<lambda>p. None), json_org = (\<lambda>p. None),
      json_asn = (\<lambda>p. None), json_networks = (\<lambda>p. None),
      ASNLinkRE = (\<lambda>p. None), IPLinkRE = (\<lambda>p. None), ASNRE = (\<lambda>p. None),
      CIDRRE = (\<lambda>p. []), IPPageCIDRRE = (\<lambda>p. None), ASNameRE = (\<lambda>p. None),
      CCRE = (\<lambda>p. None), AnySubdomainRegex = (\<lambda>p. [])\<rparr>"

text \<open>
  Umbrella answering for 8.8.8.8: the address belongs to AS 15169 with prefix 8.8.8.0/24,
  registered at the registry with index \<open>ir\<close>, and AS 15169 announces that prefix.
\<close>

definition umbrellaEnv :: "int \<Rightarrow> env" where
  "umbrellaEnv ir =
     nullEnv
       \<lparr>RequestWebPage :=
          (\<lambda>n q h. case q of RestAddrToASN a \<Rightarrow> Some ''as_for_ip''
                           | RestASNToCIDRs k \<Rightarrow> Some ''prefixes_for_asn''
                           | _ \<Rightarrow> None),
        ParseDate := (\<lambda>s. Some 954374400),
        json_as := (\<lambda>p. Some [\<lparr>as_Date = ''2000-03-30'', as_Registry = ir,
                                 as_Description = ''GOOGLE'', as_ASN = 15169,
                                 as_CIDR = ''8.8.8.0/24''\<rparr>]),
        json_netblock := (\<lambda>p. Some [\<lparr>nb_CIDR = ''8.8.8.0/24'',
                                       nb_CountryName = ''United States'',
                                       nb_CountryCode = ''US''\<rparr>])\<rparr>"

definition keyedUmbrella :: Umbrella where
  "keyedUmbrella = \<lparr>SourceType = ''api'', creds = Some \<lparr>Key = ''secret''\<rparr>\<rparr>"

definition addrOnly :: "string \<Rightarrow> ASNRequest" where
  "addrOnly a =
     \<lparr>Address = a, ASN = 0, Prefix = '''', CC = '''', Registry = '''', AllocationDate = 0,
      Description = '''', Netblocks = [], Tag = '''', Source = ''''\<rparr>"



subsection \<open>Notions of the specification, and further environments\<close>


text \<open>
  Umbrella answering for example.com: the record names one contact in scope and no name
  server, and the reverse lookup returns one page with two current domains, one of them
  in scope, and a domain that is not current.
\<close>

definition whoisEnv :: env where
  "whoisEnv =
     nullEnv
       \<lparr>RequestWebPage :=
          (\<lambda>n q h. case q of WhoisRecord d \<Rightarrow> Some ''whois''
                           | ReverseWhois url off \<Rightarrow> Some ''page''
                           | _ \<Rightarrow> None),
        IsDomainInScope := (\<lambda>d. d = ''example.com'' \<or> d = ''admin@example.com''),
        json_whois :=
          (\<lambda>p. Some \<lparr>NameServers = [], AdminContactEmail = ''admin@example.com'',
                       BillingContactEmail = '''', RegistrantEmail = '''',
                       TechContactEmail = '''', ZoneContactEmail = ''''\<rparr>),
        json_rwhois :=
          (\<lambda>p. Some (Some [(''admin@example.com'',
                  \<lparr>TotalResults = 3, MoreData = False, Limit = 500,
                   Domains = [\<lparr>rw_Domain = ''example.com'', rw_Current = True\<rparr>,
                              \<lparr>rw_Domain = ''example.org'', rw_Current = True\<rparr>,
                              \<lparr>rw_Domain = ''example.net'', rw_Current = False\<rparr>]\<rparr>)]))\<rparr>"

definition exampleWhois :: WhoisRequest where
  "exampleWhois = \<lparr>WDomain = ''example.com'', NewDomains = [], WTag = '''', WSource = ''''\<rparr>"

definition exampleRun :: world where
  "exampleRun =
     [Admit, Call (WhoisRecord ''example.com''), Admit,
      Call (ReverseWhois ''https://investigate.api.umbrella.com/whois/emails?emailList=admin@example.com'' 0),
      Emit \<lparr>WDomain = ''example.com'', NewDomains = [''example.org''],
            WTag = ''api'', WSource = ''Umbrella''\<rparr>]"










text \<open>
  NetworksDB answering for example.com, which is in scope: one address, its network
  192.0.2.0/24, and a page of the domains in that network on which a table comes before
  the heading.
\<close>

definition tableFirstPage :: string where
  "tableFirstPage = ''<table class=x></table><h2>Domains in network</h2>''"

definition tableFirstEnv :: env where
  "tableFirstEnv =
     nullEnv
       \<lparr>RequestWebPage :=
          (\<lambda>n q h. if n = 0 then Some ''links'' else if n = 1 then Some ''address''
                    else Some tableFirstPage),
        IsDomainInScope := (\<lambda>d. d = ''example.com''),
        ParseCIDR := (\<lambda>s. if s = ''192.0.2.0/24''
                           then Some (IPv4 0xC0000200, IPNet4 0xC0000200 0xFFFFFF00) else None),
        FirstLast := (\<lambda>n. (IPv4 0xC0000200, IPv4 0xC00002FF)),
        IPLinkRE := (\<lambda>p. if p = ''links'' then Some [[''href'', ''/ip/192.0.2.1'']] else None),
        IPPageCIDRRE := (\<lambda>p. if p = ''address'' then Some [''Network'', ''192.0.2.0/24'']
                              else None)\<rparr>"




text \<open>
  The netblock set of an AS as the provider gives it when \<open>c\<close> calls were made before,
  under the keys of the string set, and the test whether one of them contains the
  address.
\<close>

definition netblockAnswer :: "env \<Rightarrow> NetworksDB \<Rightarrow> nat \<Rightarrow> int \<Rightarrow> string set" where
  "netblockAnswer e n c asn =
     (case RequestWebPage e c (ApiNetblocks asn) (getHeaders n) of
        None \<Rightarrow> {}
      | Some page \<Rightarrow>
         (case json_networks e page of
            None \<Rightarrow> {}
          | Some m \<Rightarrow>
             (if net_Error m \<noteq> '''' \<or> net_Total m = 0 then {}
              else setKey e ` set (net_Results m))))"

definition hit :: "env \<Rightarrow> NetworksDB \<Rightarrow> ip option \<Rightarrow> nat \<Rightarrow> int \<Rightarrow> bool" where
  "hit e n ip c asn = (\<exists>cidr \<in> netblockAnswer e n c asn. containsIP e ip cidr)"

text \<open>
  NetworksDB with a key answering for 8.8.8.8: the address belongs to an organisation
  with the AS numbers 64500 and 15169; the first announces 192.0.2.0/24, the second
  8.8.8.0/24.
\<close>

definition apiEnv :: env where
  "apiEnv =
     nullEnv
       \<lparr>RequestWebPage :=
          (\<lambda>c q h. case q of
                      ApiIP a \<Rightarrow> Some ''ip''
                    | ApiOrgInfo i \<Rightarrow> Some ''org''
                    | ApiNetblocks a \<Rightarrow> (if a = 15169 then Some ''google'' else Some ''other'')
                    | ApiASNInfo a \<Rightarrow> Some ''as''
                    | _ \<Rightarrow> None),
        ParseCIDR := (\<lambda>s. if s = ''192.0.2.0/24''
                           then Some (IPv4 0xC0000200, IPNet4 0xC0000200 0xFFFFFF00)
                           else if s = ''8.8.8.0/24''
                           then Some (IPv4 0x08080800, IPNet4 0x08080800 0xFFFFFF00)
                           else None),
        ParseIP := (\<lambda>s. if s = ''8.8.8.8'' then Some (IPv4 0x08080808) else None),
        json_ip := (\<lambda>p. Some \<lparr>ip_Error = '''', ip_Total = 1,
                               ip_Results = [(''X'', ''8.8.8.0/24'')]\<rparr>),
        json_org := (\<lambda>p. Some \<lparr>org_Error = '''', org_Total = 1,
                                org_Results = [[64500, 15169]]\<rparr>),
        json_asn := (\<lambda>p. Some \<lparr>asn_Error = '''', asn_Total = 1,
                                asn_Results = [\<lparr>r_ASN = 15169, r_ASName = ''GOOGLE'',
                                                r_Description = ''Google LLC'',
                                                r_CountryCode = ''US'',
                                                r_Country = ''United States''\<rparr>]\<rparr>),
        json_networks :=
          (\<lambda>p. if p = ''google''
                then Some \<lparr>net_Error = '''', net_Total = 1, net_Results = [''8.8.8.0/24'']\<rparr>
                else Some \<lparr>net_Error = '''', net_Total = 1, net_Results = [''192.0.2.0/24'']\<rparr>)\<rparr>"

definition keyedNetworksDB :: NetworksDB where
  "keyedNetworksDB = OnStart (Some \<lparr>Key = ''secret''\<rparr>)"

definition apiTrace1 :: world where
  "apiTrace1 = [Checks 2, Checks 3, Call (ApiIP ''8.8.8.8'')]"

definition apiTrace2 :: world where
  "apiTrace2 = apiTrace1 @ [Checks 3, Checks 3, Call (ApiOrgInfo ''X'')]"

definition apiTrace3 :: world where
  "apiTrace3 = apiTrace2 @ [Checks 3, Checks 3, Call (ApiNetblocks 64500),
                            Checks 3, Checks 3, Call (ApiNetblocks 15169)]"

text \<open>
  The rate limiter and the calls along a trace. A charge is an admission or a call of
  \<^verbatim>\<open>numRateLimitChecks\<close> with a positive count. \<open>charged b w\<close> says whether the rate
  limiter has been charged since the last call when the trace \<open>w\<close> is over (\<open>b\<close>
  says so for its start), and \<open>gated b w\<close> that every call of \<open>w\<close> comes after a
  charge made since the call before it.
\<close>

fun isCharge :: "event \<Rightarrow> bool" where
  "isCharge Admit = True"
| "isCharge (Checks k) = (0 < k)"
| "isCharge _ = False"

definition charges :: "world \<Rightarrow> nat" where
  "charges w = length (filter isCharge w)"

fun charged :: "bool \<Rightarrow> world \<Rightarrow> bool" where
  "charged b [] = b"
| "charged b (Call q # w) = charged False w"
| "charged b (ev # w) = charged (b \<or> isCharge ev) w"

fun gated :: "bool \<Rightarrow> world \<Rightarrow> bool" where
  "gated b [] = True"
| "gated b (Call q # w) = (b \<and> gated False w)"
| "gated b (ev # w) = gated (b \<or> isCharge ev) w"

text \<open>
  The invariant of the netblocks handed to the cache: no netblock twice, and the prefix,
  if there is one, among them.
\<close>

definition netblocksAreSet :: "ASNRequest \<Rightarrow> bool" where
  "netblocksAreSet r = (distinct (Netblocks r) \<and> (Prefix r = '''' \<or> Prefix r \<in> set (Netblocks r)))"

section \<open>Properties\<close>

subsection \<open>Traces\<close>

lemma calls_append: "calls (w @ w') = calls w @ calls w'"
  by (induction w rule: calls.induct) simp_all

lemma updates_append: "updates (w @ w') = updates w @ updates w'"
  by (induction w rule: updates.induct) simp_all




lemma executeASNAddrQuery_cases [case_names stop norec rec]:
  obtains
    (stop) "executeASNAddrQuery e u w req = (w @ [Call (RestAddrToASN (Address req))], req)"
  | (norec) as0 created where "Netblocks req \<noteq> []"
      "executeASNAddrQuery e u w req =
         (w @ [Call (RestAddrToASN (Address req)), Update (fillAS u as0 created req)],
          fillAS u as0 created req)"
  | (rec) as0 created where "Netblocks req = []"
      "executeASNAddrQuery e u w req =
         (fst (executeASNQuery e u (w @ [Call (RestAddrToASN (Address req)), Admit])
                 ((fillAS u as0 created req)\<lparr>Netblocks := [TrimSpace (as_CIDR as0)]\<rparr>))
            @ [Update (snd (executeASNQuery e u (w @ [Call (RestAddrToASN (Address req)), Admit])
                 ((fillAS u as0 created req)\<lparr>Netblocks := [TrimSpace (as_CIDR as0)]\<rparr>)))],
          snd (executeASNQuery e u (w @ [Call (RestAddrToASN (Address req)), Admit])
                 ((fillAS u as0 created req)\<lparr>Netblocks := [TrimSpace (as_CIDR as0)]\<rparr>)))"
proof (cases "RequestWebPage e (ncalls w) (RestAddrToASN (Address req)) (restHeaders u)")
  case None
  then show ?thesis by (intro stop) (simp add: executeASNAddrQuery.simps)
next
  case (Some page)
  note pg = this
  show ?thesis
  proof (cases "json_as e page")
    case None
    with pg show ?thesis by (intro stop) (simp add: executeASNAddrQuery.simps)
  next
    case (Some ass)
    note js = this
    show ?thesis
    proof (cases ass)
      case Nil
      with pg js show ?thesis by (intro stop) (simp add: executeASNAddrQuery.simps)
    next
      case (Cons as0 rest)
      note cs = this
      show ?thesis
      proof (cases "ParseDate e (as_Date as0)")
        case None
        with pg js cs show ?thesis by (intro stop) (simp add: executeASNAddrQuery.simps)
      next
        case (Some created)
        have pf: "Prefix (fillAS u as0 created req) = as_CIDR as0"
          by (simp add: fillAS_def)
        show ?thesis
        proof (cases "Netblocks req = []")
          case False
          with pg js cs Some show ?thesis
            by (intro norec [of as0 created]) (simp_all add: executeASNAddrQuery.simps)
        next
          case True
          with pg js cs Some show ?thesis
            by (intro rec [of as0 created])
               (simp_all add: executeASNAddrQuery.simps pf CheckRateLimit_def case_prod_beta)
        qed
      qed
    qed
  qed
qed

lemma executeASNQuery_cases [case_names stop fin rec]:
  obtains
    (stop) "executeASNQuery e u w req = (w @ [Call (RestASNToCIDRs (ASN req))], req)"
  | (fin) nb0 nbs where
      "executeASNQuery e u w req =
         (w @ [Call (RestASNToCIDRs (ASN req))],
          finishCC (nb0 # nbs) (appendNetblocks (nb0 # nbs) req))"
  | (rec) nb0 nbs addr where
      "Prefix (appendNetblocks (nb0 # nbs) req) = ''''"
      "Netblocks ((appendNetblocks (nb0 # nbs) req)
                    \<lparr>Address := IPString e addr, CC := nb_CountryCode nb0\<rparr>) \<noteq> []"
      "executeASNQuery e u w req =
         executeASNAddrQuery e u (w @ [Call (RestASNToCIDRs (ASN req)), Admit])
           ((appendNetblocks (nb0 # nbs) req)
              \<lparr>Address := IPString e addr, CC := nb_CountryCode nb0\<rparr>)"
proof (cases "RequestWebPage e (ncalls w) (RestASNToCIDRs (ASN req)) (restHeaders u)")
  case None
  then show ?thesis by (intro stop) (simp add: executeASNQuery.simps)
next
  case (Some page)
  note pg = this
  show ?thesis
  proof (cases "json_netblock e page")
    case None
    with pg show ?thesis by (intro stop) (simp add: executeASNQuery.simps)
  next
    case (Some nbl)
    note js = this
    show ?thesis
    proof (cases nbl)
      case Nil
      with pg js show ?thesis by (intro stop) (simp add: executeASNQuery.simps)
    next
      case (Cons nb0 nbs)
      note cs = this
      have ne: "Netblocks ((appendNetblocks (nb0 # nbs) req)\<lparr>Address := a, CC := c\<rparr>) \<noteq> []" for a c
        by (simp add: Netblocks_appendNetblocks del: appendNetblocks.simps)
      show ?thesis
      proof (cases "Prefix (appendNetblocks (nb0 # nbs) req) = ''''")
        case False
        with pg js cs show ?thesis
          by (intro fin [of nb0 nbs])
             (simp add: executeASNQuery.simps del: appendNetblocks.simps finishCC.simps)
      next
        case True
        note pre = this
        show ?thesis
        proof (cases "ParseCIDR e (nb_CIDR nb0)")
          case None
          with pg js cs pre show ?thesis
            by (intro fin [of nb0 nbs])
               (simp add: executeASNQuery.simps del: appendNetblocks.simps finishCC.simps)
        next
          case (Some p)
          obtain addr ipn where p: "p = (addr, ipn)" by (cases p)
          from pg js cs pre Some p show ?thesis
            by (intro rec [of nb0 nbs addr, OF pre ne])
               (simp add: executeASNQuery.simps CheckRateLimit_def
                     del: appendNetblocks.simps finishCC.simps)
        qed
      qed
    qed
  qed
qed


lemma calls_addr_nonempty:
  assumes "Netblocks req \<noteq> []"
  shows "calls (fst (executeASNAddrQuery e u w req)) = calls w @ [RestAddrToASN (Address req)]"
proof (cases rule: executeASNAddrQuery_cases [of e u w req])
  case stop
  then show ?thesis by (simp add: calls_append)
next
  case (norec as0 created)
  then show ?thesis by (simp add: calls_append)
next
  case (rec as0 created)
  with assms show ?thesis by simp
qed

lemma calls_asn:
  "calls (fst (executeASNQuery e u w req)) = calls w @ [RestASNToCIDRs (ASN req)] \<or>
   (\<exists>a. calls (fst (executeASNQuery e u w req)) =
          calls w @ [RestASNToCIDRs (ASN req), RestAddrToASN a])"
proof (cases rule: executeASNQuery_cases [of e u w req])
  case stop
  then show ?thesis by (simp add: calls_append)
next
  case (fin nb0 nbs)
  then show ?thesis by (simp add: calls_append del: appendNetblocks.simps finishCC.simps)
next
  case (rec nb0 nbs addr)
  show ?thesis
    by (rule disjI2, rule exI [of _ "IPString e addr"])
       (simp add: rec(3) calls_addr_nonempty [OF rec(2)] calls_append del: appendNetblocks.simps)
qed

lemma calls_addr:
  "calls (fst (executeASNAddrQuery e u w req)) = calls w @ [RestAddrToASN (Address req)] \<or>
   (\<exists>n. calls (fst (executeASNAddrQuery e u w req)) =
          calls w @ [RestAddrToASN (Address req), RestASNToCIDRs n]) \<or>
   (\<exists>n a. calls (fst (executeASNAddrQuery e u w req)) =
          calls w @ [RestAddrToASN (Address req), RestASNToCIDRs n, RestAddrToASN a])"
proof (cases rule: executeASNAddrQuery_cases [of e u w req])
  case stop
  then show ?thesis by (simp add: calls_append)
next
  case (norec as0 created)
  then show ?thesis by (simp add: calls_append)
next
  case (rec as0 created)
  let ?w1 = "w @ [Call (RestAddrToASN (Address req)), Admit]"
  let ?r2 = "(fillAS u as0 created req)\<lparr>Netblocks := [TrimSpace (as_CIDR as0)]\<rparr>"
  from calls_asn [of e u ?w1 ?r2] show ?thesis
  proof
    assume "calls (fst (executeASNQuery e u ?w1 ?r2)) = calls ?w1 @ [RestASNToCIDRs (ASN ?r2)]"
    then have "calls (fst (executeASNAddrQuery e u w req)) =
                 calls w @ [RestAddrToASN (Address req), RestASNToCIDRs (ASN ?r2)]"
      by (simp add: rec(2) calls_append)
    then show ?thesis by (intro disjI2 disjI1 exI [of _ "ASN ?r2"])
  next
    assume "\<exists>a. calls (fst (executeASNQuery e u ?w1 ?r2)) =
                 calls ?w1 @ [RestASNToCIDRs (ASN ?r2), RestAddrToASN a]"
    then obtain a where "calls (fst (executeASNQuery e u ?w1 ?r2)) =
                 calls ?w1 @ [RestASNToCIDRs (ASN ?r2), RestAddrToASN a]" ..
    then have "calls (fst (executeASNAddrQuery e u w req)) =
                 calls w @ [RestAddrToASN (Address req), RestASNToCIDRs (ASN ?r2), RestAddrToASN a]"
      by (simp add: rec(2) calls_append)
    then show ?thesis by (intro disjI2 exI [of _ "ASN ?r2"] exI [of _ a])
  qed
qed

lemma shapes_hops:
  "ds \<in> requestShapes \<Longrightarrow>
   hops AddrFirst ASNFirst ds \<le> 1 \<and> hops ASNFirst AddrFirst ds \<le> 1 \<and> length ds \<le> 3"
  unfolding requestShapes_def by (elim insertE emptyE) simp_all

lemma calls_asnRequest:
  "\<exists>qs. calls (fst (asnRequest e u w req)) = calls w @ qs \<and> map direction_of qs \<in> requestShapes"
proof (cases "noKey (creds u) \<or> (Address req = '''' \<and> ASN req = 0)")
  case True
  then have "calls (fst (asnRequest e u w req)) = calls w @ []"
    by (auto simp: asnRequest_def)
  moreover have "map direction_of [] \<in> requestShapes" by (simp add: requestShapes_def)
  ultimately show ?thesis by (intro exI [of _ "[]"] conjI)
next
  case False
  note f = this
  show ?thesis
  proof (cases "Address req = ''''")
    case True
    with f have eq: "asnRequest e u w req = executeASNQuery e u w req"
      by (simp add: asnRequest_def)
    from calls_asn [of e u w req] show ?thesis
    proof (elim disjE exE)
      assume a: "calls (fst (executeASNQuery e u w req)) = calls w @ [RestASNToCIDRs (ASN req)]"
      show ?thesis
        by (rule exI [of _ "[RestASNToCIDRs (ASN req)]"]) (simp add: eq a requestShapes_def)
    next
      fix a
      assume a: "calls (fst (executeASNQuery e u w req)) =
                   calls w @ [RestASNToCIDRs (ASN req), RestAddrToASN a]"
      show ?thesis
        by (rule exI [of _ "[RestASNToCIDRs (ASN req), RestAddrToASN a]"])
           (simp add: eq a requestShapes_def)
    qed
  next
    case False
    with f have eq: "asnRequest e u w req = executeASNAddrQuery e u w req"
      by (simp add: asnRequest_def)
    from calls_addr [of e u w req] show ?thesis
    proof (elim disjE exE)
      assume a: "calls (fst (executeASNAddrQuery e u w req)) = calls w @ [RestAddrToASN (Address req)]"
      show ?thesis
        by (rule exI [of _ "[RestAddrToASN (Address req)]"]) (simp add: eq a requestShapes_def)
    next
      fix n
      assume a: "calls (fst (executeASNAddrQuery e u w req)) =
                   calls w @ [RestAddrToASN (Address req), RestASNToCIDRs n]"
      show ?thesis
        by (rule exI [of _ "[RestAddrToASN (Address req), RestASNToCIDRs n]"])
           (simp add: eq a requestShapes_def)
    next
      fix n a
      assume a: "calls (fst (executeASNAddrQuery e u w req)) =
                   calls w @ [RestAddrToASN (Address req), RestASNToCIDRs n, RestAddrToASN a]"
      show ?thesis
        by (rule exI [of _ "[RestAddrToASN (Address req), RestASNToCIDRs n, RestAddrToASN a]"])
           (simp add: eq a requestShapes_def)
    qed
  qed
qed

text \<open>
  C2. Whatever the request and whatever the provider answers, the outbound calls of one
  ASN request of Umbrella are address-first and ASN-first calls in alternation, at most
  three of them: the address-first path enters the ASN-first path at most once and the
  ASN-first path enters the address-first path at most once. The two functions are
  total (their termination is proved with their definition), so the request always
  terminates.
\<close>

theorem one_hop_each_direction:
  "\<exists>qs. calls (fst (asnRequest e u w req)) = calls w @ qs \<and>
        map direction_of qs \<in> requestShapes \<and>
        hops AddrFirst ASNFirst (map direction_of qs) \<le> 1 \<and>
        hops ASNFirst AddrFirst (map direction_of qs) \<le> 1 \<and> length qs \<le> 3"
proof -
  obtain qs where a: "calls (fst (asnRequest e u w req)) = calls w @ qs"
    and b: "map direction_of qs \<in> requestShapes"
    using calls_asnRequest [of e u w req] by (elim exE conjE)
  from shapes_hops [OF b] a b show ?thesis by (intro exI [of _ qs]) simp
qed

subsection \<open>What the ASN resolution of Umbrella hands to the cache\<close>

lemma umbrella_run:
  "asnRequest (umbrellaEnv ir) keyedUmbrella [] (addrOnly ''8.8.8.8'') =
     ([Call (RestAddrToASN ''8.8.8.8''), Admit, Call (RestASNToCIDRs 15169),
       Update \<lparr>Address = ''8.8.8.8'', ASN = 15169, Prefix = ''8.8.8.0/24'', CC = ''US'',
               Registry = registryName ir, AllocationDate = 954374400,
               Description = ''GOOGLE'', Netblocks = [''8.8.8.0/24'', ''8.8.8.0/24''],
               Tag = ''api'', Source = ''Umbrella''\<rparr>],
      \<lparr>Address = ''8.8.8.8'', ASN = 15169, Prefix = ''8.8.8.0/24'', CC = ''US'',
               Registry = registryName ir, AllocationDate = 954374400,
               Description = ''GOOGLE'', Netblocks = [''8.8.8.0/24'', ''8.8.8.0/24''],
               Tag = ''api'', Source = ''Umbrella''\<rparr>)"
  by (simp add: asnRequest_def keyedUmbrella_def noKey_def addrOnly_def
        executeASNAddrQuery.simps executeASNQuery.simps umbrellaEnv_def nullEnv_def
        ncalls_def fillAS_def CheckRateLimit_def TrimSpace_def isSpace_def umbrellaName_def
        restHeaders_def)

text \<open>
  C1. The netblocks Umbrella hands to the cache are not a set. For the address 8.8.8.8,
  with the provider reporting the prefix 8.8.8.0/24 for the address and the same prefix
  among those of its AS, \<^verbatim>\<open>executeASNAddrQuery\<close> starts the list with the prefix and
  \<^verbatim>\<open>executeASNQuery\<close> appends the prefix again: the cache receives it twice.
\<close>

theorem umbrella_netblocks_duplicate:
  "map Netblocks (updates (fst (asnRequest (umbrellaEnv 3) keyedUmbrella [] (addrOnly ''8.8.8.8''))))
     = [[''8.8.8.0/24'', ''8.8.8.0/24'']] \<and>
   \<not> distinct [''8.8.8.0/24'', ''8.8.8.0/24'']"
  by (simp add: umbrella_run)











subsection \<open>String sets\<close>

lemma set_Insert: "set (Insert e x s) = insert (setKey e x) (set s)"
  by (auto simp: Insert_def)

lemma distinct_Insert: "distinct s \<Longrightarrow> distinct (Insert e x s)"
  by (simp add: Insert_def)

lemma set_Slice: "set (Slice e site s) = set s"
  by (simp add: Slice_def)

lemma length_Slice: "length (Slice e site s) = length s"
  by (simp add: Slice_def)

lemma distinct_Slice: "distinct s \<Longrightarrow> distinct (Slice e site s)"
  by (metis card_distinct distinct_card length_Slice set_Slice)

lemma Slice_Nil_iff: "Slice e site s = [] \<longleftrightarrow> s = []"
  by (metis length_0_conv length_Slice)

subsection \<open>The reverse lookup of Umbrella\<close>












lemma emitted_append: "emitted (w @ w') = emitted w @ emitted w'"
  by (induction w rule: emitted.induct) simp_all











subsection \<open>The pages of the reverse lookup\<close>

lemma ncalls_append: "ncalls (w @ w') = ncalls w + ncalls w'"
  by (simp add: ncalls_def calls_append)













subsection \<open>WHOIS requests for a domain\<close>

lemma tableFirst_markers:
  "FindStringIndex networksdbDomainsRE tableFirstPage = Some (27, 45)"
  "FindStringIndex networksdbTableRE tableFirstPage = Some (0, 12)"
  by (simp_all add: FindStringIndex_def networksdbDomainsRE_def networksdbTableRE_def
        tableFirstPage_def)

text \<open>
  C8. A page of the domains in a network on which the text of the end marker comes
  before the text of the start marker makes \<^verbatim>\<open>whoisRequest\<close> of NetworksDB panic: both
  markers are found, the start of the region is the end of the first (45), its end the
  end of the second (12), and the slice expression is out of range.
\<close>

theorem ndb_whois_panics_on_table_first:
  "sliceString tableFirstPage 45 12 = None \<and>
   whoisRequest_ndb tableFirstEnv (OnStart None) [] exampleWhois =
     Panics [Checks 2, Call (Scrape (getDomainToIPURL ''example.com'')),
             Checks 3, Call (Scrape (networksdbBaseURL @ ''/ip/192.0.2.1'')),
             Checks 3, Call (Scrape (getDomainsInNetworkURL '''' ''''))]"
proof
  show "sliceString tableFirstPage 45 12 = None"
    by (simp add: sliceString_def)
  show "whoisRequest_ndb tableFirstEnv (OnStart None) [] exampleWhois =
     Panics [Checks 2, Call (Scrape (getDomainToIPURL ''example.com'')),
             Checks 3, Call (Scrape (networksdbBaseURL @ ''/ip/192.0.2.1'')),
             Checks 3, Call (Scrape (getDomainsInNetworkURL '''' ''''))]"
    by (simp add: sliceString_def whoisRequest_ndb_def exampleWhois_def tableFirstEnv_def
        nullEnv_def numRateLimitChecks_def ncalls_def domainsOfNetwork_def
        tableFirst_markers)
qed

text \<open>
  C10. A WHOIS request for a domain the scope predicate rejects changes nothing in
  either source: the handler returns the trace it was given, so there is no outbound
  call, no cache update and no event, and the round of the dispatch loop that handles
  the request adds the admission of the rate limiter and nothing else.
\<close>

theorem whois_out_of_scope_noop:
  assumes "\<not> IsDomainInScope e (WDomain req)"
  shows "whoisRequest fuel e u w req = Some w \<and>
         whoisRequest_ndb e n w req = Returns w () \<and>
         requests fuel e u w (WhoisReq req) = Some (w @ [Admit]) \<and>
         requests_ndb e n w (WhoisReq req) = Returns (w @ [Admit]) () \<and>
         calls (w @ [Admit]) = calls w \<and> updates (w @ [Admit]) = updates w \<and>
         emitted (w @ [Admit]) = emitted w"
  using assms
  by (simp add: whoisRequest_def whoisRequest_ndb_def CheckRateLimit_def calls_append
        updates_append emitted_append)

theorem whois_out_of_scope_noop_witness:
  "\<not> IsDomainInScope whoisEnv (WDomain (exampleWhois\<lparr>WDomain := ''example.org''\<rparr>)) \<and>
   whoisRequest 0 whoisEnv keyedUmbrella [] (exampleWhois\<lparr>WDomain := ''example.org''\<rparr>) = Some [] \<and>
   whoisRequest_ndb whoisEnv (OnStart None) [] (exampleWhois\<lparr>WDomain := ''example.org''\<rparr>)
     = Returns [] () \<and>
   requests 0 whoisEnv keyedUmbrella [] (WhoisReq (exampleWhois\<lparr>WDomain := ''example.org''\<rparr>))
     = Some [Admit] \<and>
   requests_ndb whoisEnv (OnStart None) [] (WhoisReq (exampleWhois\<lparr>WDomain := ''example.org''\<rparr>))
     = Returns [Admit] ()"
proof -
  have s: "\<not> IsDomainInScope whoisEnv (WDomain (exampleWhois\<lparr>WDomain := ''example.org''\<rparr>))"
    by (simp add: whoisEnv_def nullEnv_def exampleWhois_def)
  from whois_out_of_scope_noop [OF s, of 0 keyedUmbrella "[]" "OnStart None"] s
  show ?thesis by simp
qed


subsection \<open>Containment in a network\<close>















subsection \<open>The candidates of the address-first resolution of NetworksDB\<close>

lemma ncalls_numRateLimitChecks [simp]: "ncalls (numRateLimitChecks k w) = ncalls w"
  by (simp add: numRateLimitChecks_def ncalls_def calls_append)

lemma updates_numRateLimitChecks [simp]: "updates (numRateLimitChecks k w) = updates w"
  by (simp add: numRateLimitChecks_def updates_append)

lemma set_foldl_Insert: "set (foldl (\<lambda>s x. Insert e x s) acc xs) = set acc \<union> setKey e ` set xs"
  by (induction xs arbitrary: acc) (auto simp: set_Insert)

lemma fst_apiNetblocksQuery:
  "fst (apiNetblocksQuery e n w a) = numRateLimitChecks 3 w @ [Call (ApiNetblocks a)]"
  by (simp add: apiNetblocksQuery_def split: option.split)

lemma set_apiNetblocksQuery:
  "set (snd (apiNetblocksQuery e n w a)) = netblockAnswer e n (ncalls w) a"
  by (simp add: apiNetblocksQuery_def netblockAnswer_def set_foldl_Insert split: option.split)

lemma hit_Slice:
  "list_ex (containsIP e ip) (Slice e site (snd (apiNetblocksQuery e n (numRateLimitChecks 3 w) a)))
     = hit e n ip (ncalls w) a"
  by (simp add: list_ex_iff set_Slice set_apiNetblocksQuery hit_def)

lemma step_apiNetblocksQuery:
  "ncalls (fst (apiNetblocksQuery e n (numRateLimitChecks 3 w) a)) = Suc (ncalls w)"
  "updates (fst (apiNetblocksQuery e n (numRateLimitChecks 3 w) a)) = updates w"
  by (simp_all add: fst_apiNetblocksQuery ncalls_append updates_append)
     (simp add: ncalls_def)

lemma candidateLoop_none:
  assumes "\<forall>i<length asns. \<not> hit e n ip (ncalls w + i) (asns ! i)"
  shows "fst (snd (candidateLoop e n w ip asns cidrs)) = 0 \<and>
         updates (fst (candidateLoop e n w ip asns cidrs)) = updates w"
  using assms
proof (induction asns arbitrary: w cidrs)
  case Nil
  then show ?case by simp
next
  case (Cons a asns)
  let ?w = "fst (apiNetblocksQuery e n (numRateLimitChecks 3 w) a)"
  from Cons.prems have h0: "\<not> hit e n ip (ncalls w) a" by fastforce
  have "\<forall>i<length asns. \<not> hit e n ip (ncalls ?w + i) (asns ! i)"
  proof (intro allI impI)
    fix i assume "i < length asns"
    then have "Suc i < length (a # asns)" by simp
    with Cons.prems have "\<not> hit e n ip (ncalls w + Suc i) ((a # asns) ! Suc i)" by blast
    then show "\<not> hit e n ip (ncalls ?w + i) (asns ! i)"
      by (simp add: step_apiNetblocksQuery)
  qed
  from Cons.IH [OF this] h0 show ?case
    by (simp add: hit_Slice step_apiNetblocksQuery)
qed

lemma candidateLoop_first:
  assumes "i < length asns"
    and "hit e n ip (ncalls w + i) (asns ! i)"
    and "\<forall>j<i. \<not> hit e n ip (ncalls w + j) (asns ! j)"
  shows "\<exists>w3 cs. candidateLoop e n w ip asns cidrs = (w3, asns ! i, cs) \<and>
                 set cs = netblockAnswer e n (ncalls w + i) (asns ! i) \<and>
                 updates w3 = updates w"
  using assms
proof (induction asns arbitrary: i w cidrs)
  case Nil
  then show ?case by simp
next
  case (Cons a asns)
  let ?w = "fst (apiNetblocksQuery e n (numRateLimitChecks 3 w) a)"
  let ?c = "snd (apiNetblocksQuery e n (numRateLimitChecks 3 w) a)"
  show ?case
  proof (cases i)
    case 0
    with Cons.prems(2) have "hit e n ip (ncalls w) a" by simp
    then have "candidateLoop e n w ip (a # asns) cidrs = (?w, a, ?c)"
      by (simp add: hit_Slice)
    moreover have "set ?c = netblockAnswer e n (ncalls w) a"
      by (simp add: set_apiNetblocksQuery)
    moreover have "updates ?w = updates w" by (simp add: step_apiNetblocksQuery)
    ultimately show ?thesis using 0 by simp
  next
    case (Suc k)
    with Cons.prems(3) have h0: "\<not> hit e n ip (ncalls w) a" by fastforce
    have k: "k < length asns" using Cons.prems(1) Suc by simp
    have hk: "hit e n ip (ncalls ?w + k) (asns ! k)"
      using Cons.prems(2) Suc by (simp add: step_apiNetblocksQuery)
    have nk: "\<forall>j<k. \<not> hit e n ip (ncalls ?w + j) (asns ! j)"
    proof (intro allI impI)
      fix j assume "j < k"
      then have "Suc j < i" using Suc by simp
      with Cons.prems(3) have "\<not> hit e n ip (ncalls w + Suc j) ((a # asns) ! Suc j)" by blast
      then show "\<not> hit e n ip (ncalls ?w + j) (asns ! j)"
        by (simp add: step_apiNetblocksQuery)
    qed
    from Cons.IH [OF k hk nk, of ?c] obtain w3 cs where
      "candidateLoop e n ?w ip asns ?c = (w3, asns ! k, cs)"
      "set cs = netblockAnswer e n (ncalls ?w + k) (asns ! k)" "updates w3 = updates ?w"
      by blast
    then show ?thesis
      using h0 Suc by (simp add: hit_Slice step_apiNetblocksQuery)
  qed
qed

lemma updates_apiIPQuery: "updates (fst (apiIPQuery e n w addr)) = updates w"
  by (simp add: apiIPQuery_def updates_append split: option.split list.split prod.split)

lemma apiOrgInfoQuery_Returns:
  "apiOrgInfoQuery e n w orgid = Returns w' asns \<Longrightarrow>
     updates w' = updates w \<and> ncalls w' = Suc (ncalls w)"
  by (auto simp: apiOrgInfoQuery_def updates_append ncalls_append ncalls_def calls_append
        numRateLimitChecks_def split: option.splits list.splits if_splits)

text \<open>
  C4. Let the IP query name an organisation and the organisation query return the
  candidates \<open>asns\<close>. If the netblock set of no candidate, as queried in its turn,
  holds a netblock that contains the parsed address, the request returns and the cache
  is not updated. Otherwise, with \<open>i\<close> the first position whose netblock set has such
  a netblock, the candidate at \<open>i\<close> is the number chosen and the resolution goes on
  with it and its netblock set; a chosen number 0, the value for no number, ends the
  request like no match.
\<close>

theorem first_candidate_selected:
  assumes "apiIPQuery e n w addr = (w1, cidr, orgid)" and "orgid \<noteq> ''''"
    and "apiOrgInfoQuery e n (numRateLimitChecks 3 w1) orgid = Returns w2 asns"
  shows "((\<forall>i<length asns. \<not> hit e n (ParseIP e addr) (ncalls w2 + i) (asns ! i)) \<longrightarrow>
            (\<exists>w3. executeAPIASNAddrQuery e n w addr = Returns w3 () \<and> updates w3 = updates w)) \<and>
         (\<forall>i<length asns.
            hit e n (ParseIP e addr) (ncalls w2 + i) (asns ! i) \<and>
            (\<forall>j<i. \<not> hit e n (ParseIP e addr) (ncalls w2 + j) (asns ! j)) \<longrightarrow>
            (\<exists>w3 cidrs.
               candidateLoop e n w2 (ParseIP e addr) asns [] = (w3, asns ! i, cidrs) \<and>
               set cidrs = netblockAnswer e n (ncalls w2 + i) (asns ! i) \<and>
               updates w3 = updates w \<and>
               executeAPIASNAddrQuery e n w addr =
                 (if asns ! i = 0 then Returns w3 ()
                  else executeAPIASNQuery e n w3 (asns ! i) addr (Some cidrs))))"
proof -
  have u1: "updates w1 = updates w"
    using updates_apiIPQuery [of e n w addr] assms(1) by simp
  have u2: "updates w2 = updates w"
    using apiOrgInfoQuery_Returns [OF assms(3)] u1 by simp
  have unfold: "executeAPIASNAddrQuery e n w addr =
      (if length asns = 0 then Returns w2 ()
       else (case candidateLoop e n w2 (ParseIP e addr) asns [] of
               (w3, asn, cidrs) \<Rightarrow>
                 (if asn = 0 then Returns w3 ()
                  else executeAPIASNQuery e n w3 asn addr (Some cidrs))))"
    using assms by (simp add: executeAPIASNAddrQuery_def)
  have none: "\<exists>w3. executeAPIASNAddrQuery e n w addr = Returns w3 () \<and> updates w3 = updates w"
    if "\<forall>i<length asns. \<not> hit e n (ParseIP e addr) (ncalls w2 + i) (asns ! i)"
  proof (cases "length asns = 0")
    case True
    with unfold u2 show ?thesis by simp
  next
    case False
    from candidateLoop_none [OF that, of "[]"] False u2 show ?thesis
      by (simp add: unfold case_prod_beta)
  qed
  have first: "\<exists>w3 cidrs.
               candidateLoop e n w2 (ParseIP e addr) asns [] = (w3, asns ! i, cidrs) \<and>
               set cidrs = netblockAnswer e n (ncalls w2 + i) (asns ! i) \<and>
               updates w3 = updates w \<and>
               executeAPIASNAddrQuery e n w addr =
                 (if asns ! i = 0 then Returns w3 ()
                  else executeAPIASNQuery e n w3 (asns ! i) addr (Some cidrs))"
    if "i < length asns" "hit e n (ParseIP e addr) (ncalls w2 + i) (asns ! i)"
       "\<forall>j<i. \<not> hit e n (ParseIP e addr) (ncalls w2 + j) (asns ! j)" for i
  proof -
    from candidateLoop_first [OF that, of "[]"] obtain w3 cs where
      c: "candidateLoop e n w2 (ParseIP e addr) asns [] = (w3, asns ! i, cs)"
         "set cs = netblockAnswer e n (ncalls w2 + i) (asns ! i)" "updates w3 = updates w2"
      by blast
    from that(1) have "length asns \<noteq> 0" by auto
    with c u2 show ?thesis
      by (intro exI [of _ w3] exI [of _ cs]) (simp add: unfold)
  qed
  from none first show ?thesis by blast
qed

lemma apiEnv_ip:
  "apiIPQuery apiEnv keyedNetworksDB [Checks 2] ''8.8.8.8'' = (apiTrace1, ''8.8.8.0/24'', ''X'')"
  by (simp add: apiIPQuery_def apiEnv_def nullEnv_def numRateLimitChecks_def apiTrace1_def)

lemma apiEnv_org:
  "apiOrgInfoQuery apiEnv keyedNetworksDB (numRateLimitChecks 3 apiTrace1) ''X''
     = Returns apiTrace2 [64500, 15169]"
  by (simp add: apiOrgInfoQuery_def apiEnv_def nullEnv_def numRateLimitChecks_def
        apiTrace1_def apiTrace2_def)

lemma apiEnv_hits:
  "\<not> hit apiEnv keyedNetworksDB (ParseIP apiEnv ''8.8.8.8'') (ncalls apiTrace2 + 0) 64500"
  "hit apiEnv keyedNetworksDB (ParseIP apiEnv ''8.8.8.8'') (ncalls apiTrace2 + 1) 15169"
  by (simp_all add: hit_def netblockAnswer_def containsIP_def apiEnv_def nullEnv_def)

lemma apiEnv_run:
  "executeAPIASNAddrQuery apiEnv keyedNetworksDB [Checks 2] ''8.8.8.8'' =
     Returns (apiTrace3 @
        [Checks 3, Checks 3, Call (ApiASNInfo 15169),
         Update \<lparr>Address = ''8.8.8.8'', ASN = 15169, Prefix = ''8.8.8.0/24'', CC = ''US'',
                 Registry = '''', AllocationDate = 0, Description = ''Google LLC, US'',
                 Netblocks = [''8.8.8.0/24''], Tag = ''api'', Source = ''NetworksDB''\<rparr>]) ()"
  by (simp add: executeAPIASNAddrQuery_def apiEnv_ip apiEnv_org)
     (simp add: apiEnv_def nullEnv_def apiNetblocksQuery_def numRateLimitChecks_def
        apiTrace1_def apiTrace2_def apiTrace3_def ncalls_def Insert_def Slice_def
        containsIP_def executeAPIASNQuery_def resolvePrefix_def apiASNInfoQuery_def
        keyedNetworksDB_def OnStart_def noKey_def networksdbName_def)

theorem first_candidate_selected_witness:
  "apiIPQuery apiEnv keyedNetworksDB [Checks 2] ''8.8.8.8'' = (apiTrace1, ''8.8.8.0/24'', ''X'') \<and>
   ''X'' \<noteq> '''' \<and>
   apiOrgInfoQuery apiEnv keyedNetworksDB (numRateLimitChecks 3 apiTrace1) ''X''
     = Returns apiTrace2 [64500, 15169] \<and>
   \<not> hit apiEnv keyedNetworksDB (ParseIP apiEnv ''8.8.8.8'') (ncalls apiTrace2 + 0) 64500 \<and>
   hit apiEnv keyedNetworksDB (ParseIP apiEnv ''8.8.8.8'') (ncalls apiTrace2 + 1) 15169 \<and>
   (\<exists>w3 cidrs.
      candidateLoop apiEnv keyedNetworksDB apiTrace2 (ParseIP apiEnv ''8.8.8.8'') [64500, 15169] []
        = (w3, 15169, cidrs) \<and>
      set cidrs = netblockAnswer apiEnv keyedNetworksDB (ncalls apiTrace2 + 1) 15169 \<and>
      updates w3 = updates [Checks 2] \<and>
      executeAPIASNAddrQuery apiEnv keyedNetworksDB [Checks 2] ''8.8.8.8''
        = executeAPIASNQuery apiEnv keyedNetworksDB w3 15169 ''8.8.8.8'' (Some cidrs)) \<and>
   executeAPIASNAddrQuery apiEnv keyedNetworksDB [Checks 2] ''8.8.8.8'' =
     Returns (apiTrace3 @
        [Checks 3, Checks 3, Call (ApiASNInfo 15169),
         Update \<lparr>Address = ''8.8.8.8'', ASN = 15169, Prefix = ''8.8.8.0/24'', CC = ''US'',
                 Registry = '''', AllocationDate = 0, Description = ''Google LLC, US'',
                 Netblocks = [''8.8.8.0/24''], Tag = ''api'', Source = ''NetworksDB''\<rparr>]) ()"
proof -
  have ne: "''X'' \<noteq> ''''" by simp
  have i: "(1::nat) < length [64500, 15169 :: int]" by simp
  have h: "hit apiEnv keyedNetworksDB (ParseIP apiEnv ''8.8.8.8'') (ncalls apiTrace2 + 1)
             ([64500, 15169] ! 1) \<and>
           (\<forall>j<1. \<not> hit apiEnv keyedNetworksDB (ParseIP apiEnv ''8.8.8.8'') (ncalls apiTrace2 + j)
                       ([64500, 15169] ! j))"
    using apiEnv_hits by simp
  from first_candidate_selected [OF apiEnv_ip ne apiEnv_org] i h
  have "\<exists>w3 cidrs.
      candidateLoop apiEnv keyedNetworksDB apiTrace2 (ParseIP apiEnv ''8.8.8.8'') [64500, 15169] []
        = (w3, [64500, 15169] ! 1, cidrs) \<and>
      set cidrs = netblockAnswer apiEnv keyedNetworksDB (ncalls apiTrace2 + 1) ([64500, 15169] ! 1) \<and>
      updates w3 = updates [Checks 2] \<and>
      executeAPIASNAddrQuery apiEnv keyedNetworksDB [Checks 2] ''8.8.8.8''
        = (if [64500, 15169] ! 1 = (0::int) then Returns w3 ()
           else executeAPIASNQuery apiEnv keyedNetworksDB w3 ([64500, 15169] ! 1) ''8.8.8.8''
                  (Some cidrs))"
    by blast
  then have "\<exists>w3 cidrs.
      candidateLoop apiEnv keyedNetworksDB apiTrace2 (ParseIP apiEnv ''8.8.8.8'') [64500, 15169] []
        = (w3, 15169, cidrs) \<and>
      set cidrs = netblockAnswer apiEnv keyedNetworksDB (ncalls apiTrace2 + 1) 15169 \<and>
      updates w3 = updates [Checks 2] \<and>
      executeAPIASNAddrQuery apiEnv keyedNetworksDB [Checks 2] ''8.8.8.8''
        = executeAPIASNQuery apiEnv keyedNetworksDB w3 15169 ''8.8.8.8'' (Some cidrs)"
    by simp
  with apiEnv_ip ne apiEnv_org apiEnv_hits apiEnv_run show ?thesis by (intro conjI)
qed


subsection \<open>The rate limiter\<close>

lemma charged_append: "charged b (w @ w') = charged (charged b w) w'"
  by (induction b w rule: charged.induct) simp_all

lemma gated_append: "gated b (w @ w') = (gated b w \<and> gated (charged b w) w')"
  by (induction b w rule: gated.induct) simp_all

lemma gated_mono: "gated b w \<Longrightarrow> gated True w"
  by (induction b w rule: gated.induct) simp_all

lemma gated_count: "gated b w \<Longrightarrow> ncalls w \<le> charges w + (if b then 1 else 0)"
proof (induction w arbitrary: b)
  case Nil
  then show ?case by (simp add: ncalls_def)
next
  case (Cons ev w)
  show ?case
  proof (cases ev)
    case (Call q)
    with Cons.prems have "b" "gated False w" by simp_all
    from Cons.IH [OF this(2)] this(1) Call show ?thesis
      by (simp add: ncalls_def charges_def)
  next
    case Admit
    with Cons.prems have "gated True w" by simp
    from Cons.IH [OF this] Admit show ?thesis by (simp add: ncalls_def charges_def)
  next
    case (Checks k)
    with Cons.prems have "gated (b \<or> 0 < k) w" by simp
    from Cons.IH [OF this] Checks show ?thesis
      by (cases "0 < k") (simp_all add: ncalls_def charges_def split: if_splits)
  next
    case (Update r)
    with Cons.prems have "gated b w" by simp
    from Cons.IH [OF this] Update show ?thesis by (simp add: ncalls_def charges_def)
  next
    case (Emit r)
    with Cons.prems have "gated b w" by simp
    from Cons.IH [OF this] Emit show ?thesis by (simp add: ncalls_def charges_def)
  next
    case (NewName s)
    with Cons.prems have "gated b w" by simp
    from Cons.IH [OF this] NewName show ?thesis by (simp add: ncalls_def charges_def)
  qed
qed

lemma gated_NewNames: "gated b (map NewName names)"
  by (induction names arbitrary: b) simp_all

lemmas gate_simps = gated_append charged_append numRateLimitChecks_def CheckRateLimit_def

text \<open>Umbrella.\<close>

lemma gated_addr_nonempty:
  assumes "Netblocks req \<noteq> []" "gated b w" "charged b w"
  shows "gated b (fst (executeASNAddrQuery e u w req))"
proof (cases rule: executeASNAddrQuery_cases [of e u w req])
  case stop
  with assms show ?thesis by (simp add: gate_simps)
next
  case (norec as0 created)
  with assms show ?thesis by (simp add: gate_simps)
next
  case (rec as0 created)
  with assms show ?thesis by simp
qed

lemma gated_asn:
  assumes "gated b w" "charged b w"
  shows "gated b (fst (executeASNQuery e u w req))"
proof (cases rule: executeASNQuery_cases [of e u w req])
  case stop
  with assms show ?thesis by (simp add: gate_simps)
next
  case (fin nb0 nbs)
  with assms show ?thesis by (simp add: gate_simps del: appendNetblocks.simps finishCC.simps)
next
  case (rec nb0 nbs addr)
  have "gated b (w @ [Call (RestASNToCIDRs (ASN req)), Admit])"
    "charged b (w @ [Call (RestASNToCIDRs (ASN req)), Admit])"
    using assms by (simp_all add: gate_simps)
  from gated_addr_nonempty [OF rec(2) this] show ?thesis by (simp add: rec(3))
qed

lemma gated_addr:
  assumes "gated b w" "charged b w"
  shows "gated b (fst (executeASNAddrQuery e u w req))"
proof (cases rule: executeASNAddrQuery_cases [of e u w req])
  case stop
  with assms show ?thesis by (simp add: gate_simps)
next
  case (norec as0 created)
  with assms show ?thesis by (simp add: gate_simps)
next
  case (rec as0 created)
  have "gated b (w @ [Call (RestAddrToASN (Address req)), Admit])"
    "charged b (w @ [Call (RestAddrToASN (Address req)), Admit])"
    using assms by (simp_all add: gate_simps)
  from gated_asn [OF this] show ?thesis by (simp add: rec(2) gate_simps)
qed

lemma gated_asnRequest:
  assumes "gated b w" "charged b w"
  shows "gated b (fst (asnRequest e u w req))"
  using assms gated_addr [OF assms] gated_asn [OF assms]
  by (simp add: asnRequest_def)

lemma gated_dnsRequest:
  assumes "gated b w" "charged b w"
  shows "gated b (dnsRequest e u w d)"
  using assms by (simp add: dnsRequest_def gate_simps gated_NewNames split: option.split)

lemma gated_addrRequest:
  assumes "gated b w" "charged b w"
  shows "gated b (addrRequest e u w a)"
  using assms by (simp add: addrRequest_def gate_simps gated_NewNames split: option.split)

lemma gated_queryWhois: "gated b w \<Longrightarrow> gated b (fst (queryWhois e u w d))"
  by (simp add: queryWhois_def gate_simps split: option.split)

lemma gated_reverseWhoisLoop:
  assumes "reverseWhoisLoop fuel e u url w whois count domains = Some (w', ds)" "gated b w"
  shows "gated b w'"
  using assms
proof (induction fuel arbitrary: w whois count domains)
  case 0
  then show ?case by simp
next
  case (Suc fuel)
  let ?w1 = "CheckRateLimit w @ [Call (ReverseWhois url count)]"
  have g: "gated b ?w1" using Suc.prems(2) by (simp add: gate_simps)
  show ?case
  proof (cases "RequestWebPage e (ncalls (CheckRateLimit w)) (ReverseWhois url count) (restHeaders u)")
    case None
    with Suc.prems(1) g show ?thesis by simp
  next
    case (Some page)
    note pg = this
    show ?thesis
    proof (cases "json_rwhois e page")
      case None
      with pg Suc.prems(1) g show ?thesis by simp
    next
      case (Some decoded)
      show ?thesis
      proof (cases "snd (scanResults e (map snd (UnmarshalMap decoded whois)) domains False)")
        case False
        with pg Some Suc.prems(1) g show ?thesis by simp
      next
        case True
        with pg Some Suc.prems(1)
        have "reverseWhoisLoop fuel e u url ?w1 (UnmarshalMap decoded whois) (count + 500)
                (fst (scanResults e (map snd (UnmarshalMap decoded whois)) domains False))
              = Some (w', ds)" by simp
        from Suc.IH [OF this g] show ?thesis .
      qed
    qed
  qed
qed

lemma gated_reverseLookup:
  assumes "reverseLookup fuel e u w keys url domains = Some (w', domains')" "gated b w"
  shows "gated b w'"
proof (cases "length keys > 0")
  case False
  with assms show ?thesis by (simp add: reverseLookup_def)
next
  case True
  with assms(1) obtain ds where "queryReverseWhois fuel e u w url = Some (w', ds)"
    by (auto simp: reverseLookup_def split: option.splits)
  then show ?thesis
    unfolding queryReverseWhois_def using assms(2) by (rule gated_reverseWhoisLoop)
qed

lemma gated_whoisRequest:
  assumes run: "whoisRequest fuel e u w req = Some w'" and g: "gated b w"
  shows "gated b w'"
proof (cases "noKey (creds u) \<or> \<not> IsDomainInScope e (WDomain req)")
  case True
  with run have "w' = w" by (cases "noKey (creds u)") (simp_all add: whoisRequest_def)
  with g show ?thesis by simp
next
  case False
  note go = this
  obtain w1 r where qw: "queryWhois e u w (WDomain req) = (w1, r)"
    by (cases "queryWhois e u w (WDomain req)")
  from gated_queryWhois [OF g, of e u "WDomain req"] qw have g1: "gated b w1" by simp
  show ?thesis
  proof (cases r)
    case None
    with run go qw have "w' = w1" by (simp add: whoisRequest_def)
    with g1 show ?thesis by simp
  next
    case (Some whoisrec)
    let ?emails = "collateEmails e whoisrec"
    let ?ns = "filter (validateScope e) (NameServers whoisrec)"
    from run go qw Some obtain w2 domains where
      l1: "reverseLookup fuel e u w1 ?emails (reverseWhoisByEmailURL ?emails) [] = Some (w2, domains)"
      by (auto simp: whoisRequest_def split: option.splits)
    from run go qw Some l1 obtain w3 domains' where
      l2: "reverseLookup fuel e u w2 ?ns (reverseWhoisByNSURL ?ns) domains = Some (w3, domains')"
      by (auto simp: whoisRequest_def split: option.splits)
    from run go qw Some l1 l2 have w': "w' =
         (if length domains' > 0
          then w3 @ [Emit \<lparr>WDomain = WDomain req, NewDomains = Slice e 2 domains',
                           WTag = SourceType u, WSource = umbrellaName\<rparr>]
          else w3)"
      by (simp add: whoisRequest_def)
    have "gated b w3"
      by (rule gated_reverseLookup [OF l2 gated_reverseLookup [OF l1 g1]])
    with w' show ?thesis by (simp add: gate_simps)
  qed
qed

lemma gated_requests:
  assumes "requests fuel e u w r = Some w'" "gated b w"
  shows "gated b w'"
proof -
  have c: "gated b (CheckRateLimit w)" "charged b (CheckRateLimit w)"
    using assms(2) by (simp_all add: gate_simps)
  show ?thesis
  proof (cases r)
    case (DNSRequest d)
    with assms(1) gated_dnsRequest [OF c] show ?thesis by auto
  next
    case (AddrRequest a)
    with assms(1) gated_addrRequest [OF c] show ?thesis by auto
  next
    case (ASNReq req)
    with assms(1) gated_asnRequest [OF c] show ?thesis by auto
  next
    case (WhoisReq req)
    with assms(1) have "whoisRequest fuel e u (CheckRateLimit w) req = Some w'" by simp
    from gated_whoisRequest [OF this c(1)] show ?thesis .
  qed
qed

text \<open>NetworksDB.\<close>

lemma fst_apiIPQuery:
  "fst (apiIPQuery e n w addr) = numRateLimitChecks 3 w @ [Call (ApiIP addr)]"
  by (simp add: apiIPQuery_def split: option.split list.split prod.split)

lemma traceOf_apiOrgInfoQuery:
  "traceOf (apiOrgInfoQuery e n w orgid) = numRateLimitChecks 3 w @ [Call (ApiOrgInfo orgid)]"
  by (simp add: apiOrgInfoQuery_def split: option.split list.split)

lemma fst_apiASNInfoQuery:
  "fst (apiASNInfoQuery e n w asn) = numRateLimitChecks 3 w @ [Call (ApiASNInfo asn)]"
  by (simp add: apiASNInfoQuery_def split: option.split list.split)

lemma gated_resolvePrefix:
  "gated b w \<Longrightarrow> gated b (traceOf (resolvePrefix e n w asn addr netblocks))"
proof -
  assume g: "gated b w"
  obtain w2 r where a: "apiASNInfoQuery e n (numRateLimitChecks 3 w) asn = (w2, r)"
    by (cases "apiASNInfoQuery e n (numRateLimitChecks 3 w) asn")
  from fst_apiASNInfoQuery [of e n "numRateLimitChecks 3 w" asn] a
  have w2: "w2 = numRateLimitChecks 3 (numRateLimitChecks 3 w) @ [Call (ApiASNInfo asn)]" by simp
  have "gated b w2" using g by (simp add: w2 gate_simps)
  with g a show ?thesis
    by (simp add: resolvePrefix_def gate_simps split: option.split)
qed

lemma gated_executeAPIASNQuery:
  "gated b w \<Longrightarrow> gated b (traceOf (executeAPIASNQuery e n w asn addr given))"
proof -
  assume g: "gated b w"
  have "gated b (fst (apiNetblocksQuery e n w asn))"
    using g by (simp add: fst_apiNetblocksQuery gate_simps)
  with g show ?thesis
    by (simp add: executeAPIASNQuery_def gated_resolvePrefix)
qed

lemma gated_candidateLoop:
  "gated b w \<Longrightarrow> gated b (fst (candidateLoop e n w ip asns cidrs))"
proof (induction asns arbitrary: w cidrs)
  case Nil
  then show ?case by simp
next
  case (Cons a asns)
  have "gated b (fst (apiNetblocksQuery e n (numRateLimitChecks 3 w) a))"
    using Cons.prems by (simp add: fst_apiNetblocksQuery gate_simps)
  with Cons.IH show ?case by simp
qed

lemma gated_executeAPIASNAddrQuery:
  assumes g: "gated b w"
  shows "gated b (traceOf (executeAPIASNAddrQuery e n w addr))"
proof -
  obtain w1 cidr orgid where a: "apiIPQuery e n w addr = (w1, cidr, orgid)"
    by (cases "apiIPQuery e n w addr")
  from fst_apiIPQuery [of e n w addr] a have "w1 = numRateLimitChecks 3 w @ [Call (ApiIP addr)]"
    by simp
  then have g1: "gated b w1" using g by (simp add: gate_simps)
  have g2: "gated b (traceOf (apiOrgInfoQuery e n (numRateLimitChecks 3 w1) orgid))"
    using g1 by (simp add: traceOf_apiOrgInfoQuery gate_simps)
  show ?thesis
  proof (cases "orgid = ''''")
    case True
    with a g1 show ?thesis by (simp add: executeAPIASNAddrQuery_def)
  next
    case False
    show ?thesis
    proof (cases "apiOrgInfoQuery e n (numRateLimitChecks 3 w1) orgid")
      case (Panics w2)
      with g2 a False show ?thesis by (simp add: executeAPIASNAddrQuery_def)
    next
      case (Returns w2 asns)
      with g2 have gw2: "gated b w2" by simp
      obtain w3 asn cidrs where c:
        "candidateLoop e n w2 (ParseIP e addr) asns [] = (w3, asn, cidrs)"
        by (cases "candidateLoop e n w2 (ParseIP e addr) asns []")
      from gated_candidateLoop [OF gw2, of e n "ParseIP e addr" asns "[]"] c
      have g3: "gated b w3" by simp
      from a False Returns c gw2 g3 gated_executeAPIASNQuery [OF g3, of e n asn addr "Some cidrs"]
      show ?thesis by (simp add: executeAPIASNAddrQuery_def)
    qed
  qed
qed

lemma gated_executeASNQuery_ndb:
  "gated b w \<Longrightarrow> gated b (executeASNQuery_ndb e n w asn addr netblocks)"
  by (simp add: executeASNQuery_ndb_def gate_simps Let_def split: option.split list.split)

lemma gated_executeASNAddrQuery_ndb:
  assumes "gated b w" "charged b w"
  shows "gated b (executeASNAddrQuery_ndb e n w addr)"
proof -
  have "gated b (numRateLimitChecks 3 (w @ [Call (Scrape (getIPURL addr))]) @ [Call (Scrape u)])" for u
    using assms by (simp add: gate_simps)
  from this gated_executeASNQuery_ndb [OF this] assms show ?thesis
    by (simp add: executeASNAddrQuery_ndb_def gate_simps split: option.split list.split)
qed

lemma gated_asnRequest_ndb:
  assumes "gated b w"
  shows "gated b (traceOf (asnRequest_ndb e n w req))"
proof -
  have c: "gated b (numRateLimitChecks 2 w)" "charged b (numRateLimitChecks 2 w)"
    using assms by (simp_all add: gate_simps)
  from assms c gated_executeAPIASNAddrQuery [OF c(1)] gated_executeAPIASNQuery [OF c(1)]
    gated_executeASNAddrQuery_ndb [OF c] gated_executeASNQuery_ndb [OF c(1)]
  show ?thesis by (simp add: asnRequest_ndb_def)
qed

lemma gated_domainsOfNetwork:
  "gated b w \<Longrightarrow> gated b (traceOf (domainsOfNetwork e n w match newdomains))"
  by (simp add: domainsOfNetwork_def gate_simps split: option.split list.split prod.split)

lemma gated_ipPagesLoop:
  "gated b w \<Longrightarrow> gated b (traceOf (ipPagesLoop e n w matches newdomains))"
proof (induction matches arbitrary: w newdomains)
  case Nil
  then show ?case by simp
next
  case (Cons m matches)
  from gated_domainsOfNetwork [OF Cons.prems, of e n m newdomains] Cons.IH
  show ?case by (cases "domainsOfNetwork e n w m newdomains") simp_all
qed

lemma gated_whoisRequest_ndb:
  assumes "gated b w"
  shows "gated b (traceOf (whoisRequest_ndb e n w req))"
proof -
  let ?w1 = "numRateLimitChecks 2 w @ [Call (Scrape (getDomainToIPURL (WDomain req)))]"
  have g1: "gated b ?w1" using assms by (simp add: gate_simps)
  have "gated b (traceOf (case ipPagesLoop e n ?w1 matches [] of
            Panics w' \<Rightarrow> Panics w'
          | Returns w' newdomains \<Rightarrow>
              Returns (if length (Slice e 11 newdomains) > 0
                       then w' @ [Emit \<lparr>WDomain = WDomain req,
                                        NewDomains = Slice e 12 newdomains,
                                        WTag = ndbSourceType n,
                                        WSource = networksdbName\<rparr>]
                       else w') ()))" for matches
    using gated_ipPagesLoop [OF g1, of e n matches "[]"]
    by (cases "ipPagesLoop e n ?w1 matches []") (simp_all add: gate_simps)
  with assms g1 show ?thesis
    by (simp add: whoisRequest_ndb_def split: option.split)
qed

lemma gated_requests_ndb:
  assumes "gated b w"
  shows "gated b (traceOf (requests_ndb e n w r))"
proof -
  have c: "gated b (CheckRateLimit w)" using assms by (simp add: gate_simps)
  show ?thesis
    using assms gated_asnRequest_ndb [OF c] gated_whoisRequest_ndb [OF c]
    by (cases r) simp_all
qed

lemma whoisEnv_dispatch:
  "requests 1 whoisEnv keyedUmbrella [] (WhoisReq exampleWhois) = Some (Admit # exampleRun)"
  by (simp add: whoisRequest_def whoisEnv_def nullEnv_def keyedUmbrella_def noKey_def
        exampleWhois_def exampleRun_def queryWhois_def CheckRateLimit_def ncalls_def
        restHeaders_def collateEmails_def validateScope_def Insert_def Slice_def
        reverseLookup_def queryReverseWhois_def UnmarshalMap_def
        reverseWhoisByEmailURL_def reverseWhoisByNSURL_def whoisBaseURL_def umbrellaName_def)

text \<open>
  C5, as the code has it. In one round of either dispatch loop, started on an empty
  trace, every outbound call comes after a charge of the rate limiter made since the
  call before it, so the charges are at least as many as the calls. A charge is a
  \<^verbatim>\<open>CheckRateLimit\<close> or a call of \<^verbatim>\<open>numRateLimitChecks\<close> with a positive count. For
  Umbrella the round is taken to return, which its reverse lookup may fail to do.
\<close>

theorem charge_before_every_call:
  "(requests fuel e u [] r = Some w' \<longrightarrow> gated False w' \<and> ncalls w' \<le> charges w') \<and>
   gated False (traceOf (requests_ndb e' n [] r')) \<and>
   ncalls (traceOf (requests_ndb e' n [] r')) \<le> charges (traceOf (requests_ndb e' n [] r'))"
proof (intro conjI impI)
  have g0: "gated False []" by simp
  show g: "gated False (traceOf (requests_ndb e' n [] r'))"
    by (rule gated_requests_ndb [OF g0])
  from gated_count [OF g]
  show "ncalls (traceOf (requests_ndb e' n [] r')) \<le> charges (traceOf (requests_ndb e' n [] r'))"
    by simp
  assume run: "requests fuel e u [] r = Some w'"
  show g': "gated False w'" by (rule gated_requests [OF run g0])
  from gated_count [OF g'] show "ncalls w' \<le> charges w'" by simp
qed

theorem charge_before_every_call_witness:
  "requests 1 whoisEnv keyedUmbrella [] (WhoisReq exampleWhois) = Some (Admit # exampleRun) \<and>
   gated False (Admit # exampleRun) \<and>
   ncalls (Admit # exampleRun) \<le> charges (Admit # exampleRun) \<and>
   gated False (traceOf (requests_ndb apiEnv keyedNetworksDB [] (ASNReq (addrOnly ''8.8.8.8'')))) \<and>
   ncalls (traceOf (requests_ndb apiEnv keyedNetworksDB [] (ASNReq (addrOnly ''8.8.8.8''))))
     \<le> charges (traceOf (requests_ndb apiEnv keyedNetworksDB [] (ASNReq (addrOnly ''8.8.8.8''))))"
proof -
  note t = charge_before_every_call [where fuel = 1 and e = whoisEnv and u = keyedUmbrella
      and r = "WhoisReq exampleWhois" and w' = "Admit # exampleRun" and e' = apiEnv
      and n = keyedNetworksDB and r' = "ASNReq (addrOnly ''8.8.8.8'')"]
  from t whoisEnv_dispatch have "gated False (Admit # exampleRun)"
    "ncalls (Admit # exampleRun) \<le> charges (Admit # exampleRun)" by blast+
  with t whoisEnv_dispatch show ?thesis by (intro conjI) blast+
qed

text \<open>
  C5 as stated fails: a WHOIS request handled by Umbrella makes two outbound calls, for
  the record and for one page of the reverse lookup, and consumes three admissions, one
  in the dispatch loop, one in \<^verbatim>\<open>queryWhois\<close> and one for the page.
\<close>

theorem admissions_exceed_calls_counterexample:
  "requests 1 whoisEnv keyedUmbrella [] (WhoisReq exampleWhois) = Some (Admit # exampleRun) \<and>
   ncalls (Admit # exampleRun) = 2 \<and> admissions (Admit # exampleRun) = 3"
proof (intro conjI)
  show "requests 1 whoisEnv keyedUmbrella [] (WhoisReq exampleWhois) = Some (Admit # exampleRun)"
    by (rule whoisEnv_dispatch)
  show "ncalls (Admit # exampleRun) = 2" by (simp add: exampleRun_def ncalls_def)
  show "admissions (Admit # exampleRun) = 3" by (simp add: exampleRun_def admissions_def)
qed


subsection \<open>What NetworksDB hands to the cache\<close>

text \<open>
  The sibling source keeps the invariant Umbrella breaks: its netblocks are the listing
  of a string set, and its prefix is taken from a listing of the same set.
\<close>

lemma distinct_foldl_Insert:
  "distinct acc \<Longrightarrow> distinct (foldl (\<lambda>s x. Insert e x s) acc xs)"
  by (induction xs arbitrary: acc) (simp_all add: distinct_Insert)

lemma distinct_insertCIDRs: "distinct s \<Longrightarrow> distinct (insertCIDRs e page s)"
proof -
  have "distinct acc \<Longrightarrow>
        distinct (foldl (\<lambda>s m. if length m \<ge> 2 then Insert e (TrimSpace (m ! 1)) s else s) acc ms)"
    for acc ms
    by (induction ms arbitrary: acc) (simp_all add: distinct_Insert)
  then show "distinct s \<Longrightarrow> distinct (insertCIDRs e page s)"
    by (simp add: insertCIDRs_def)
qed

lemma prefixLoop_member: "prefixLoop e ip cidrs = '''' \<or> prefixLoop e ip cidrs \<in> set cidrs"
  by (induction cidrs) auto

lemma netblocksAreSet_scrape:
  assumes "distinct netblocks0"
  shows "\<exists>us. updates (executeASNQuery_ndb e n w asn addr netblocks0) = updates w @ us \<and>
              list_all netblocksAreSet us"
proof -
  let ?w = "numRateLimitChecks 3 w @ [Call (Scrape (getASNURL asn))]"
  have stop: ?thesis if "executeASNQuery_ndb e n w asn addr netblocks0 = ?w"
    using that by (intro exI [of _ "[]"]) (simp add: updates_append)
  have upd: ?thesis
    if "executeASNQuery_ndb e n w asn addr netblocks0 = ?w @ [Update r]" "netblocksAreSet r" for r
    using that by (intro exI [of _ "[r]"]) (simp add: updates_append)
  show ?thesis
  proof (cases "RequestWebPage e (ncalls (numRateLimitChecks 3 w)) (Scrape (getASNURL asn)) []")
    case None
    then show ?thesis by (intro stop) (simp add: executeASNQuery_ndb_def)
  next
    case (Some page)
    note pg = this
    show ?thesis
    proof (cases "\<exists>m0 name ms. ASNameRE e page = Some (m0 # name # ms)")
      case False
      with pg show ?thesis
        by (intro stop) (simp add: executeASNQuery_ndb_def split: option.split list.split)
    next
      case True
      then obtain m0 name ms where nm: "ASNameRE e page = Some (m0 # name # ms)" by blast
      show ?thesis
      proof (cases "\<exists>c0 cc cs. CCRE e page = Some (c0 # cc # cs)")
        case False
        with pg nm show ?thesis
          by (intro stop) (simp add: executeASNQuery_ndb_def split: option.split list.split)
      next
        case True
        then obtain c0 cc cs where cc: "CCRE e page = Some (c0 # cc # cs)" by blast
        let ?nb = "insertCIDRs e page netblocks0"
        let ?p = "if addr \<noteq> '''' then prefixLoop e (ParseIP e addr) (Slice e 8 ?nb) else ''''"
        let ?p' = "if ?p = '''' \<and> length ?nb > 0
                   then (case Slice e 9 ?nb of [] \<Rightarrow> ?p | x # xs \<Rightarrow> x) else ?p"
        let ?r = "\<lparr>Address = addr, ASN = asn, Prefix = ?p', CC = TrimSpace cc, Registry = '''',
                    AllocationDate = 0, Description = TrimSpace name @ '', '' @ TrimSpace cc,
                    Netblocks = Slice e 10 ?nb, Tag = ndbSourceType n, Source = networksdbName\<rparr>"
        have d: "distinct (Slice e 10 ?nb)"
          by (rule distinct_Slice [OF distinct_insertCIDRs [OF assms]])
        have p: "?p = '''' \<or> ?p \<in> set ?nb"
          using prefixLoop_member [of e "ParseIP e addr" "Slice e 8 ?nb"]
          by (auto simp: set_Slice)
        have p': "?p' = '''' \<or> ?p' \<in> set ?nb"
        proof (cases "?p = '''' \<and> length ?nb > 0")
          case False
          with p show ?thesis by auto
        next
          case True
          show ?thesis
          proof (cases "Slice e 9 ?nb")
            case Nil
            with True show ?thesis by simp
          next
            case (Cons x xs)
            then have "x \<in> set (Slice e 9 ?nb)" by simp
            then have "x \<in> set ?nb" by (simp add: set_Slice)
            with True Cons show ?thesis by simp
          qed
        qed
        have "netblocksAreSet ?r"
          using d p' by (simp add: netblocksAreSet_def set_Slice)
        moreover have "executeASNQuery_ndb e n w asn addr netblocks0 = ?w @ [Update ?r]"
          using pg nm cc by (simp add: executeASNQuery_ndb_def Let_def)
        ultimately show ?thesis by (rule upd [rotated])
      qed
    qed
  qed
qed

lemma netblocksAreSet_scrape_addr:
  "\<exists>us. updates (executeASNAddrQuery_ndb e n w addr) = updates w @ us \<and>
        list_all netblocksAreSet us"
proof -
  let ?w1 = "w @ [Call (Scrape (getIPURL addr))]"
  have none: ?thesis if "updates (executeASNAddrQuery_ndb e n w addr) = updates w"
    using that by (intro exI [of _ "[]"]) simp
  show ?thesis
  proof (cases "RequestWebPage e (ncalls w) (Scrape (getIPURL addr)) []")
    case None
    then show ?thesis
      by (intro none) (simp add: executeASNAddrQuery_ndb_def updates_append)
  next
    case (Some page)
    note pg = this
    show ?thesis
    proof (cases "\<exists>m0 href ms. ASNLinkRE e page = Some (m0 # href # ms)")
      case False
      with pg show ?thesis
        by (intro none)
           (simp add: executeASNAddrQuery_ndb_def updates_append split: option.split list.split)
    next
      case True
      then obtain m0 href ms where ln: "ASNLinkRE e page = Some (m0 # href # ms)" by blast
      let ?w2 = "numRateLimitChecks 3 ?w1 @ [Call (Scrape (networksdbBaseURL @ href))]"
      have u2: "updates ?w2 = updates w" by (simp add: updates_append)
      show ?thesis
      proof (cases "RequestWebPage e (ncalls (numRateLimitChecks 3 ?w1))
                      (Scrape (networksdbBaseURL @ href)) []")
        case None
        with pg ln u2 show ?thesis
          by (intro none) (simp add: executeASNAddrQuery_ndb_def)
      next
        case (Some page2)
        note pg2 = this
        show ?thesis
        proof (cases "\<exists>a0 num rest asn. ASNRE e page2 = Some (a0 # num # rest) \<and>
                        Atoi e (TrimSpace num) = Some asn")
          case False
          with pg ln pg2 u2 show ?thesis
            by (intro none)
               (auto simp: executeASNAddrQuery_ndb_def split: option.split list.split)
        next
          case True
          then obtain a0 num rest asn where
            a: "ASNRE e page2 = Some (a0 # num # rest)" "Atoi e (TrimSpace num) = Some asn"
            by blast
          have eq: "executeASNAddrQuery_ndb e n w addr =
                      executeASNQuery_ndb e n ?w2 asn addr (insertCIDRs e page2 [])"
            using pg ln pg2 a by (simp add: executeASNAddrQuery_ndb_def)
          have "distinct (insertCIDRs e page2 [])" by (rule distinct_insertCIDRs) simp
          from netblocksAreSet_scrape [OF this, of e n ?w2 asn addr] u2 show ?thesis
            by (simp add: eq)
        qed
      qed
    qed
  qed
qed

lemma updates_apiASNInfoQuery: "updates (fst (apiASNInfoQuery e n w asn)) = updates w"
  by (simp add: fst_apiASNInfoQuery updates_append)

lemma netblocksAreSet_resolvePrefix:
  assumes "distinct netblocks" "netblocks \<noteq> []"
  shows "\<exists>us. updates (traceOf (resolvePrefix e n w asn addr netblocks)) = updates w @ us \<and>
              list_all netblocksAreSet us"
proof -
  let ?p = "if addr \<noteq> '''' then prefixLoop e (ParseIP e addr) (Slice e 4 netblocks) else ''''"
  from assms(2) have "Slice e 5 netblocks \<noteq> []" by (simp add: Slice_Nil_iff)
  then obtain x xs where sl: "Slice e 5 netblocks = x # xs"
    by (cases "Slice e 5 netblocks") simp_all
  then have "x \<in> set (Slice e 5 netblocks)" by simp
  then have x: "x \<in> set netblocks" by (simp add: set_Slice)
  obtain w2 r where a: "apiASNInfoQuery e n (numRateLimitChecks 3 w) asn = (w2, r)"
    by (cases "apiASNInfoQuery e n (numRateLimitChecks 3 w) asn")
  from updates_apiASNInfoQuery [of e n "numRateLimitChecks 3 w" asn] a
  have u2: "updates w2 = updates w" by simp
  have d: "distinct (Slice e 6 netblocks)" by (rule distinct_Slice [OF assms(1)])
  show ?thesis
  proof (cases r)
    case None
    with a sl u2 show ?thesis
      by (intro exI [of _ "[]"]) (simp add: resolvePrefix_def)
  next
    case (Some req)
    show ?thesis
    proof (cases "?p = ''''")
      case True
      let ?r = "req\<lparr>Address := (if addr \<noteq> '''' then addr else Address req),
                    Prefix := x, Netblocks := Slice e 6 netblocks\<rparr>"
      have "netblocksAreSet ?r" using d x by (simp add: netblocksAreSet_def set_Slice)
      moreover have "resolvePrefix e n w asn addr netblocks = Returns (w2 @ [Update ?r]) ()"
        using True a Some sl by (simp add: resolvePrefix_def)
      ultimately show ?thesis using u2
        by (intro exI [of _ "[?r]"]) (simp add: updates_append)
    next
      case False
      then have ad: "addr \<noteq> ''''" by (cases "addr = ''''") simp_all
      let ?q = "prefixLoop e (ParseIP e addr) (Slice e 4 netblocks)"
      let ?r = "req\<lparr>Address := (if addr \<noteq> '''' then addr else Address req),
                    Prefix := ?q, Netblocks := Slice e 6 netblocks\<rparr>"
      from False ad have q: "?q \<noteq> ''''" by simp
      with prefixLoop_member [of e "ParseIP e addr" "Slice e 4 netblocks"]
      have "?q \<in> set netblocks" by (simp add: set_Slice)
      then have "netblocksAreSet ?r" using d by (simp add: netblocksAreSet_def set_Slice)
      moreover have "resolvePrefix e n w asn addr netblocks = Returns (w2 @ [Update ?r]) ()"
        using q ad a Some by (simp add: resolvePrefix_def)
      ultimately show ?thesis using u2
        by (intro exI [of _ "[?r]"]) (simp add: updates_append)
    qed
  qed
qed

lemma distinct_apiNetblocksQuery: "distinct (snd (apiNetblocksQuery e n w asn))"
  by (simp add: apiNetblocksQuery_def distinct_foldl_Insert split: option.split)

lemma updates_apiNetblocksQuery: "updates (fst (apiNetblocksQuery e n w asn)) = updates w"
  by (simp add: fst_apiNetblocksQuery updates_append)

lemma netblocksAreSet_api:
  assumes "case given of None \<Rightarrow> True | Some s \<Rightarrow> distinct s"
  shows "\<exists>us. updates (traceOf (executeAPIASNQuery e n w asn addr given)) = updates w @ us \<and>
              list_all netblocksAreSet us"
proof (cases "length (case given of None \<Rightarrow> [] | Some s \<Rightarrow> s) = 0")
  case False
  then obtain s where g: "given = Some s" "s \<noteq> []" by (cases given) simp_all
  with assms have "distinct s" by simp
  from netblocksAreSet_resolvePrefix [OF this g(2), of e n w asn addr] g show ?thesis
    by (simp add: executeAPIASNQuery_def)
next
  case True
  let ?nb = "foldl (\<lambda>s x. Insert e x s) [] (Slice e 3 (snd (apiNetblocksQuery e n w asn)))"
  let ?w1 = "fst (apiNetblocksQuery e n w asn)"
  have d: "distinct ?nb" by (rule distinct_foldl_Insert) simp
  show ?thesis
  proof (cases "length ?nb = 0")
    case True
    with \<open>length (case given of None \<Rightarrow> [] | Some s \<Rightarrow> s) = 0\<close> show ?thesis
      by (intro exI [of _ "[]"]) (simp add: executeAPIASNQuery_def updates_apiNetblocksQuery)
  next
    case False
    then have "?nb \<noteq> []" by simp
    from netblocksAreSet_resolvePrefix [OF d this, of e n ?w1 asn addr]
      False \<open>length (case given of None \<Rightarrow> [] | Some s \<Rightarrow> s) = 0\<close>
    show ?thesis by (simp add: executeAPIASNQuery_def updates_apiNetblocksQuery)
  qed
qed

lemma distinct_candidateLoop:
  "distinct cidrs \<Longrightarrow> distinct (snd (snd (candidateLoop e n w ip asns cidrs)))"
  by (induction asns arbitrary: w cidrs) (simp_all add: distinct_apiNetblocksQuery)

lemma updates_candidateLoop:
  "updates (fst (candidateLoop e n w ip asns cidrs)) = updates w"
  by (induction asns arbitrary: w cidrs) (simp_all add: updates_apiNetblocksQuery)

lemma netblocksAreSet_api_addr:
  "\<exists>us. updates (traceOf (executeAPIASNAddrQuery e n w addr)) = updates w @ us \<and>
        list_all netblocksAreSet us"
proof -
  obtain w1 cidr orgid where a: "apiIPQuery e n w addr = (w1, cidr, orgid)"
    by (cases "apiIPQuery e n w addr")
  from updates_apiIPQuery [of e n w addr] a have u1: "updates w1 = updates w" by simp
  have none: ?thesis if "updates (traceOf (executeAPIASNAddrQuery e n w addr)) = updates w"
    using that by (intro exI [of _ "[]"]) simp
  show ?thesis
  proof (cases "orgid = ''''")
    case True
    with a u1 show ?thesis by (intro none) (simp add: executeAPIASNAddrQuery_def)
  next
    case False
    have t2: "updates (traceOf (apiOrgInfoQuery e n (numRateLimitChecks 3 w1) orgid)) = updates w"
      using u1 by (simp add: traceOf_apiOrgInfoQuery updates_append)
    show ?thesis
    proof (cases "apiOrgInfoQuery e n (numRateLimitChecks 3 w1) orgid")
      case (Panics w2)
      with t2 a False show ?thesis by (intro none) (simp add: executeAPIASNAddrQuery_def)
    next
      case (Returns w2 asns)
      with t2 have u2: "updates w2 = updates w" by simp
      obtain w3 asn cidrs where c:
        "candidateLoop e n w2 (ParseIP e addr) asns [] = (w3, asn, cidrs)"
        by (cases "candidateLoop e n w2 (ParseIP e addr) asns []")
      from updates_candidateLoop [of e n w2 "ParseIP e addr" asns "[]"] c u2
      have u3: "updates w3 = updates w" by simp
      from distinct_candidateLoop [of "[]" e n w2 "ParseIP e addr" asns] c
      have d: "distinct cidrs" by simp
      show ?thesis
      proof (cases "length asns = 0 \<or> asn = 0")
        case True
        with a False Returns c u2 u3 show ?thesis
          by (intro none) (auto simp: executeAPIASNAddrQuery_def)
      next
        case False
        with a \<open>orgid \<noteq> ''''\<close> Returns c
        have "executeAPIASNAddrQuery e n w addr = executeAPIASNQuery e n w3 asn addr (Some cidrs)"
          by (simp add: executeAPIASNAddrQuery_def)
        with netblocksAreSet_api [of "Some cidrs" e n w3 asn addr] d u3 show ?thesis by simp
      qed
    qed
  qed
qed

lemma networksdb_netblocks_are_set:
  "\<exists>us. updates (traceOf (asnRequest_ndb e n w req)) = updates w @ us \<and>
        list_all netblocksAreSet us"
proof -
  let ?w = "numRateLimitChecks 2 w"
  have u: "updates ?w = updates w" by simp
  show ?thesis
  proof (cases "Address req = '''' \<and> ASN req = 0")
    case True
    then show ?thesis by (intro exI [of _ "[]"]) (simp add: asnRequest_ndb_def)
  next
    case False
    note go = this
    show ?thesis
    proof (cases "hasAPIKey n")
      case True
      show ?thesis
      proof (cases "Address req = ''''")
        case True
        with go \<open>hasAPIKey n\<close>
        have "asnRequest_ndb e n w req = executeAPIASNQuery e n ?w (ASN req) '''' None"
          by (simp add: asnRequest_ndb_def)
        with netblocksAreSet_api [of None e n ?w "ASN req" "''''"] u show ?thesis by simp
      next
        case False
        with go \<open>hasAPIKey n\<close>
        have "asnRequest_ndb e n w req = executeAPIASNAddrQuery e n ?w (Address req)"
          by (simp add: asnRequest_ndb_def)
        with netblocksAreSet_api_addr [of e n ?w "Address req"] u show ?thesis by simp
      qed
    next
      case False
      show ?thesis
      proof (cases "Address req = ''''")
        case True
        with go \<open>\<not> hasAPIKey n\<close>
        have "asnRequest_ndb e n w req
                = Returns (executeASNQuery_ndb e n ?w (ASN req) '''' []) ()"
          by (simp add: asnRequest_ndb_def)
        with netblocksAreSet_scrape [of "[]" e n ?w "ASN req" "''''"] u show ?thesis by simp
      next
        case False
        with go \<open>\<not> hasAPIKey n\<close>
        have "asnRequest_ndb e n w req
                = Returns (executeASNAddrQuery_ndb e n ?w (Address req)) ()"
          by (simp add: asnRequest_ndb_def)
        with netblocksAreSet_scrape_addr [of e n ?w "Address req"] u show ?thesis by simp
      qed
    qed
  qed
qed


end
